theory Spec2Isabelle
  imports Complex_Main
begin

section \<open>Binder geometry and duplex layout of binder-print\<close>

text \<open>
  The services of the repository (\<^verbatim>\<open>binderSpecs.ts\<close>, \<^verbatim>\<open>pdfGenerator.ts\<close>,
  \<^verbatim>\<open>outlineGenerator.ts\<close>, \<^verbatim>\<open>contentProcessor.ts\<close>) compute on JavaScript numbers, which
  are IEEE 754 doubles. A number is a \<^typ>\<open>real\<close> here. Where the source computes hole
  positions and scales, every operation is rounded to the nearest double by \<open>fl\<close>, as the
  source rounds it; the page geometry of the generator and of the outline renderer is kept in
  exact arithmetic. Counts and indices are \<^typ>\<open>nat\<close>. The string-literal union types of
  \<^verbatim>\<open>types/index.ts\<close> are datatypes, its interfaces are records.
\<close>

subsection \<open>JavaScript numbers\<close>

text \<open>
  \<open>fl x\<close> is the double nearest to \<open>x\<close>, ties to the even significand: \<open>x\<close> is scaled to
  a significand between \<open>2 ^ 52\<close> and \<open>2 ^ 53\<close>, which is rounded to an integer and scaled
  back. The exponent is not bounded: the model is that of doubles as long as no result
  overflows (beyond about 1.8e308) or is subnormal (below about 2.2e-308), and it has no
  infinities or NaN. A decimal literal \<^verbatim>\<open>9.7\<close> of the source is the double \<open>fl 9.7\<close>, an
  operation \<^verbatim>\<open>a + b\<close> is \<open>fl (a + b)\<close>; integers below \<open>2 ^ 53\<close> are doubles and are
  written as they are.
\<close>

fun bitLength :: "nat \<Rightarrow> nat" where
  "bitLength n = (if n = 0 then 0 else Suc (bitLength (n div 2)))"

declare bitLength.simps [simp del]

definition roundEven :: "real \<Rightarrow> int" where
  "roundEven x =
     (let n = \<lfloor>x\<rfloor>; d = x - of_int n
      in if d < 1 / 2 then n else if 1 / 2 < d then n + 1 else if even n then n else n + 1)"

definition fl_pos :: "real \<Rightarrow> real" where
  "fl_pos x =
     (if 1 \<le> x then
        (let k = bitLength (nat \<lfloor>x\<rfloor>)
         in of_int (roundEven (x * 2 ^ 53 / 2 ^ k)) * 2 ^ k / 2 ^ 53)
      else
        (let k = bitLength (nat \<lfloor>1 / x\<rfloor>)
         in of_int (roundEven (x * 2 ^ 52 * 2 ^ k)) / (2 ^ 52 * 2 ^ k)))"

definition fl :: "real \<Rightarrow> real" where
  "fl x = (if x = 0 then 0 else if 0 < x then fl_pos x else - fl_pos (- x))"

subsection \<open>types/index.ts\<close>

datatype PaperSize = A4 | A5

record Size =
  width :: real
  height :: real

definition PAPER_SIZES :: "PaperSize \<Rightarrow> Size" where
  "PAPER_SIZES p = (case p of
       A4 \<Rightarrow> \<lparr>width = 210, height = 297\<rparr>
     | A5 \<Rightarrow> \<lparr>width = 148, height = 210\<rparr>)"

datatype BinderType =
    A5_20_hole
  | A5_2_hole
  | A5_6_hole_filofax
  | A5_6_hole_standard
  | A4_4_hole

datatype PageSide = left | right

text \<open>The field \<^verbatim>\<open>id\<close> of the interface is \<open>spec_id\<close> here (\<open>id\<close> is the identity of HOL).\<close>

record BinderSpec =
  spec_id :: BinderType
  name :: string
  paperSize :: PaperSize
  holeCount :: nat
  holeDiameter :: real
  edgeDistance :: real
  getHolePositions :: "real \<Rightarrow> real list"

subsection \<open>binderSpecs.ts: the catalog\<close>

definition HOLE_DIAMETER :: real where
  "HOLE_DIAMETER = 6"

text \<open>\<^verbatim>\<open>Array.from({ length: n }, (_, i) => f i)\<close> is \<open>map f [0..<n]\<close>.\<close>

definition a5_20_hole :: BinderSpec where
  "a5_20_hole = \<lparr>
     spec_id = A5_20_hole,
     name = ''A5 20-Hole (Japanese)'',
     paperSize = A5,
     holeCount = 20,
     holeDiameter = HOLE_DIAMETER,
     edgeDistance = 5.5,
     getHolePositions = (\<lambda>pageHeight.
       let pitch = fl 9.7;
           totalSpan = fl (pitch * 19);
           startY = fl (fl (pageHeight - totalSpan) / 2)
       in map (\<lambda>i. fl (startY + fl (real i * pitch))) [0..<20]) \<rparr>"

definition a5_2_hole :: BinderSpec where
  "a5_2_hole = \<lparr>
     spec_id = A5_2_hole,
     name = ''A5 2-Hole (ISO 838)'',
     paperSize = A5,
     holeCount = 2,
     holeDiameter = HOLE_DIAMETER,
     edgeDistance = 12,
     getHolePositions = (\<lambda>pageHeight.
       let spacing = 80;
           centerY = fl (pageHeight / 2)
       in [fl (centerY - fl (spacing / 2)), fl (centerY + fl (spacing / 2))]) \<rparr>"

definition a5_6_hole_filofax :: BinderSpec where
  "a5_6_hole_filofax = \<lparr>
     spec_id = A5_6_hole_filofax,
     name = ''A5 6-Hole (Filofax)'',
     paperSize = A5,
     holeCount = 6,
     holeDiameter = HOLE_DIAMETER,
     edgeDistance = 12,
     getHolePositions = (\<lambda>pageHeight.
       let pitch = 19;
           centralGap = fl 50.8;
           centerY = fl (pageHeight / 2);
           topGroupCenter = fl (fl (centerY - fl (centralGap / 2)) - pitch);
           bottomGroupCenter = fl (fl (centerY + fl (centralGap / 2)) + pitch)
       in [fl (topGroupCenter - pitch), topGroupCenter, fl (topGroupCenter + pitch),
           fl (bottomGroupCenter - pitch), bottomGroupCenter, fl (bottomGroupCenter + pitch)]) \<rparr>"

definition a5_6_hole_standard :: BinderSpec where
  "a5_6_hole_standard = \<lparr>
     spec_id = A5_6_hole_standard,
     name = ''A5 6-Hole (Standard)'',
     paperSize = A5,
     holeCount = 6,
     holeDiameter = HOLE_DIAMETER,
     edgeDistance = 12,
     getHolePositions = (\<lambda>pageHeight.
       let pitch = 19;
           centralGap = 70;
           centerY = fl (pageHeight / 2);
           topGroupCenter = fl (fl (centerY - fl (centralGap / 2)) - pitch);
           bottomGroupCenter = fl (fl (centerY + fl (centralGap / 2)) + pitch)
       in [fl (topGroupCenter - pitch), topGroupCenter, fl (topGroupCenter + pitch),
           fl (bottomGroupCenter - pitch), bottomGroupCenter, fl (bottomGroupCenter + pitch)]) \<rparr>"

definition a4_4_hole :: BinderSpec where
  "a4_4_hole = \<lparr>
     spec_id = A4_4_hole,
     name = ''A4 4-Hole (European)'',
     paperSize = A4,
     holeCount = 4,
     holeDiameter = HOLE_DIAMETER,
     edgeDistance = 11,
     getHolePositions = (\<lambda>pageHeight.
       let spacing = 80;
           totalSpan = fl (spacing * 3);
           startY = fl (fl (pageHeight - totalSpan) / 2)
       in map (\<lambda>i. fl (startY + fl (real i * spacing))) [0..<4]) \<rparr>"

text \<open>\<^verbatim>\<open>BINDER_SPECS: Record<BinderType, BinderSpec>\<close>, read at a key of the union type.\<close>

definition BINDER_SPECS :: "BinderType \<Rightarrow> BinderSpec" where
  "BINDER_SPECS t = (case t of
       A5_20_hole \<Rightarrow> a5_20_hole
     | A5_2_hole \<Rightarrow> a5_2_hole
     | A5_6_hole_filofax \<Rightarrow> a5_6_hole_filofax
     | A5_6_hole_standard \<Rightarrow> a5_6_hole_standard
     | A4_4_hole \<Rightarrow> a4_4_hole)"

definition getBinderSpec :: "BinderType \<Rightarrow> BinderSpec" where
  "getBinderSpec t = BINDER_SPECS t"

subsection \<open>binderSpecs.ts: getContentArea\<close>

record ContentArea = Size +
  offsetX :: real
  offsetY :: real

text \<open>
  The body of \<^verbatim>\<open>getContentArea\<close> after its first line
  \<^verbatim>\<open>const spec = BINDER_SPECS[binderType]\<close>: it reads the catalog entry only through its
  fields.
\<close>

definition contentAreaOf :: "BinderSpec \<Rightarrow> PaperSize \<Rightarrow> PageSide \<Rightarrow> bool \<Rightarrow> ContentArea" where
  "contentAreaOf spec paperSz pageSide enablePadding =
     (let paper = PAPER_SIZES paperSz;
          binderPaper = PAPER_SIZES (paperSize spec);
          padding = (if enablePadding then 5 else 0);
          holeMargin = edgeDistance spec + holeDiameter spec / 2 + padding;
          contentWidth = width binderPaper - holeMargin;
          contentHeight = height binderPaper;
          (offX, offY) =
            (if paperSz = paperSize spec then
               (if pageSide = left then 0 else holeMargin, 0)
             else if paperSz = A4 \<and> paperSize spec = A5 then
               ((width paper - width binderPaper) / 2
                  + (if pageSide = right then holeMargin else 0),
                (height paper - height binderPaper) / 2)
             else
               (if pageSide = right then holeMargin else 0, 0))
      in \<lparr>width = contentWidth, height = contentHeight, offsetX = offX, offsetY = offY\<rparr>)"

definition getContentArea :: "BinderType \<Rightarrow> PaperSize \<Rightarrow> PageSide \<Rightarrow> bool \<Rightarrow> ContentArea" where
  "getContentArea binderType paperSz pageSide enablePadding =
     contentAreaOf (BINDER_SPECS binderType) paperSz pageSide enablePadding"

text \<open>The hole margin of the resolver, as the spec names it.\<close>

definition holeMarginOf :: "BinderSpec \<Rightarrow> bool \<Rightarrow> real" where
  "holeMarginOf spec enablePadding =
     edgeDistance spec + holeDiameter spec / 2 + (if enablePadding then 5 else 0)"

subsection \<open>The registry at run time\<close>

text \<open>
  The union type \<^verbatim>\<open>BinderType\<close> exists at compile time only. At run time
  \<^verbatim>\<open>BINDER_SPECS\<close> is an object literal with five own string keys, whose prototype is
  \<^verbatim>\<open>Object.prototype\<close>, and \<^verbatim>\<open>getBinderSpec\<close> is the property read
  \<^verbatim>\<open>BINDER_SPECS[type]\<close>. The read completes normally for every string: with the entry
  for an own key, with the inherited property for a key of \<^verbatim>\<open>Object.prototype\<close> (a
  function, or the prototype itself for \<^verbatim>\<open>__proto__\<close>; never a binder entry), and with
  \<^verbatim>\<open>undefined\<close> for any other key. The keys of \<^verbatim>\<open>Object.prototype\<close> are those of
  ECMAScript with its Annex B. The source has no \<^verbatim>\<open>throw\<close>; the error kinds are those
  the spec names.
\<close>

datatype CoreError =
  UnknownStandard | DegenerateArea | UnsupportedSizeCombination | InvalidContentDimensions

datatype 'a Completion = Normal 'a | Throw CoreError

datatype 'a JsValue = Undefined | Value 'a | Inherited string

definition binderTypeKey :: "BinderType \<Rightarrow> string" where
  "binderTypeKey t = (case t of
       A5_20_hole \<Rightarrow> ''a5-20-hole''
     | A5_2_hole \<Rightarrow> ''a5-2-hole''
     | A5_6_hole_filofax \<Rightarrow> ''a5-6-hole-filofax''
     | A5_6_hole_standard \<Rightarrow> ''a5-6-hole-standard''
     | A4_4_hole \<Rightarrow> ''a4-4-hole'')"

definition BINDER_SPECS_object :: "(string \<times> BinderSpec) list" where
  "BINDER_SPECS_object =
     [(''a5-20-hole'', a5_20_hole),
      (''a5-2-hole'', a5_2_hole),
      (''a5-6-hole-filofax'', a5_6_hole_filofax),
      (''a5-6-hole-standard'', a5_6_hole_standard),
      (''a4-4-hole'', a4_4_hole)]"

definition Object_prototype_keys :: "string list" where
  "Object_prototype_keys =
     [''constructor'', ''hasOwnProperty'', ''isPrototypeOf'', ''propertyIsEnumerable'',
      ''toLocaleString'', ''toString'', ''valueOf'', ''__proto__'',
      ''__defineGetter__'', ''__defineSetter__'', ''__lookupGetter__'', ''__lookupSetter__'']"

definition getBinderSpec_erased :: "string \<Rightarrow> BinderSpec JsValue Completion" where
  "getBinderSpec_erased key =
     Normal (case map_of BINDER_SPECS_object key of
               Some spec \<Rightarrow> Value spec
             | None \<Rightarrow> if key \<in> set Object_prototype_keys then Inherited key else Undefined)"

subsection \<open>Drawing: pages as lists of draw instructions\<close>

text \<open>
  The document-writing backend (pdf-lib) is external. A page is its size and the draw calls
  made on it, in order; a document is the list of its pages, in the order of
  \<^verbatim>\<open>addPage\<close>. Every stroke of the source is black (\<^verbatim>\<open>rgb(0, 0, 0)\<close>), so the
  colour is not recorded; the line width is. Fetching and embedding the image of a content
  page is external too: an image is named by the data URL it is read from.
\<close>

datatype DrawOp =
    DrawRectangle real real real real real   \<comment> \<open>x, y, width, height, borderWidth\<close>
  | DrawCircle real real real real           \<comment> \<open>x, y, size (radius), borderWidth\<close>
  | DrawLine real real real real real        \<comment> \<open>start x, start y, end x, end y, thickness\<close>
  | DrawImage string real real real real     \<comment> \<open>image, x, y, width, height\<close>

record PDFPage =
  pageSize :: "real \<times> real"
  ops :: "DrawOp list"

type_synonym PDFDocument = "PDFPage list"

definition newPage :: "real \<Rightarrow> real \<Rightarrow> PDFPage" where
  "newPage w h = \<lparr>pageSize = (w, h), ops = []\<rparr>"

definition draw :: "PDFPage \<Rightarrow> DrawOp list \<Rightarrow> PDFPage" where
  "draw page new = page\<lparr>ops := ops page @ new\<rparr>"

definition mmToPoints :: "real \<Rightarrow> real" where
  "mmToPoints mm = (mm / 25.4) * 72"

definition pxToMm :: "real \<Rightarrow> real \<Rightarrow> real" where
  "pxToMm px dpi = (px / dpi) * 25.4"

definition LINE_WIDTH :: real where
  "LINE_WIDTH = 1"

text \<open>
  The crop-mark loop over the four corners, which \<^verbatim>\<open>drawOutline\<close> and
  \<^verbatim>\<open>drawOutlineAt\<close> share word for word: per corner one horizontal and one vertical mark.
\<close>

definition cropMarks :: "real \<Rightarrow> real \<Rightarrow> real \<Rightarrow> real \<Rightarrow> DrawOp list" where
  "cropMarks areaX areaY areaWidth areaHeight =
     (let cropMarkLength = mmToPoints 5;
          cropMarkOffset = mmToPoints 3;
          corners = [(areaX, areaY), (areaX + areaWidth, areaY),
                     (areaX, areaY + areaHeight), (areaX + areaWidth, areaY + areaHeight)]
      in concat (map (\<lambda>(cx, cy).
           let isLeft = (cx = areaX);
               isBottom = (cy = areaY);
               hStart = (if isLeft then cx - cropMarkOffset - cropMarkLength else cx + cropMarkOffset);
               hEnd = (if isLeft then cx - cropMarkOffset else cx + cropMarkOffset + cropMarkLength);
               vStart = (if isBottom then cy - cropMarkOffset - cropMarkLength else cy + cropMarkOffset);
               vEnd = (if isBottom then cy - cropMarkOffset else cy + cropMarkOffset + cropMarkLength)
           in [DrawLine hStart cy hEnd cy LINE_WIDTH, DrawLine cx vStart cx vEnd LINE_WIDTH])
         corners))"

text \<open>The loop \<^verbatim>\<open>for (const posY of holePositions)\<close> of both outline functions.\<close>

definition drawHoles :: "real \<Rightarrow> real \<Rightarrow> real \<Rightarrow> real list \<Rightarrow> DrawOp list" where
  "drawHoles holeX areaY holeRadius holePositions =
     map (\<lambda>posY. DrawCircle holeX (areaY + mmToPoints posY) holeRadius LINE_WIDTH) holePositions"

subsection \<open>outlineGenerator.ts: drawOutline\<close>

datatype OutlinePosition = Top | Bottom | Single

text \<open>The area of the binder sheet on the page, lines 37 to 61 of the function.\<close>

definition drawOutline_area ::
  "BinderType \<Rightarrow> PaperSize \<Rightarrow> bool \<Rightarrow> OutlinePosition \<Rightarrow> real \<times> real" where
  "drawOutline_area binderType paperSz is2Up position =
     (let spec = BINDER_SPECS binderType;
          paper = PAPER_SIZES paperSz;
          binderPaper = PAPER_SIZES (paperSize spec);
          pageWidth = mmToPoints (width paper);
          pageHeight = mmToPoints (height paper);
          targetWidth = mmToPoints (width binderPaper);
          targetHeight = mmToPoints (height binderPaper)
      in if is2Up \<and> paperSz = A4 \<and> paperSize spec = A5 then
           (if position = Top then (0, (pageWidth - targetHeight) / 2)
            else (targetWidth, (pageWidth - targetHeight) / 2))
         else
           (let areaX = (pageWidth - targetWidth) / 2;
                areaY = (pageHeight - targetHeight) / 2
            in (pageWidth - areaX - targetWidth, areaY)))"

definition drawOutline ::
  "PDFPage \<Rightarrow> BinderType \<Rightarrow> PaperSize \<Rightarrow> PageSide \<Rightarrow> bool \<Rightarrow> OutlinePosition \<Rightarrow> PDFPage" where
  "drawOutline page binderType paperSz pageSide is2Up position =
     (let spec = BINDER_SPECS binderType;
          binderPaper = PAPER_SIZES (paperSize spec);
          targetWidth = mmToPoints (width binderPaper);
          targetHeight = mmToPoints (height binderPaper);
          (areaX, areaY) = drawOutline_area binderType paperSz is2Up position;
          holePositions = getHolePositions spec (height binderPaper);
          holeDiameterPt = mmToPoints (holeDiameter spec);
          holeRadius = holeDiameterPt / 2;
          edgeDistancePt = mmToPoints (edgeDistance spec);
          holeX = (if pageSide = left then areaX + targetWidth - edgeDistancePt
                   else areaX + edgeDistancePt)
      in draw page
           ([DrawRectangle areaX areaY targetWidth targetHeight LINE_WIDTH]
            @ drawHoles holeX areaY holeRadius holePositions
            @ cropMarks areaX areaY targetWidth targetHeight))"

subsection \<open>pdfGenerator.ts\<close>

text \<open>
  The revision of the generator that has the 2-up mode (\<^verbatim>\<open>generatePdf\<close> with
  \<^verbatim>\<open>use2Up\<close>, \<^verbatim>\<open>generate2UpPages\<close>, \<^verbatim>\<open>drawContentPageAt\<close>, \<^verbatim>\<open>drawOutlineAt\<close>) and one
  page side for the whole document; a later revision takes the side from each page and lays
  out single sheets only. Of a content page, the field \<^verbatim>\<open>id\<close> is \<open>page_id\<close>,
  \<^verbatim>\<open>type\<close> is \<open>page_type\<close>, and the position record has \<open>pos_x\<close> and \<open>pos_y\<close> for
  \<^verbatim>\<open>x\<close> and \<^verbatim>\<open>y\<close>.
\<close>

datatype ContentType = image | pdf_page

record ContentPosition =
  pos_x :: real
  pos_y :: real
  scale :: real

record ContentPage =
  page_id :: string
  page_type :: ContentType
  dataUrl :: string
  originalWidth :: real
  originalHeight :: real
  position :: ContentPosition

definition drawOutlineAt ::
  "PDFPage \<Rightarrow> BinderType \<Rightarrow> PageSide \<Rightarrow> real \<Rightarrow> real \<Rightarrow> real \<Rightarrow> real \<Rightarrow> PDFPage" where
  "drawOutlineAt pdfPage binderType pageSide areaX areaY areaWidth areaHeight =
     (let spec = BINDER_SPECS binderType;
          binderPaper = PAPER_SIZES (paperSize spec);
          holeDiameterPt = mmToPoints (holeDiameter spec);
          holeRadius = holeDiameterPt / 2;
          edgeDistancePt = mmToPoints (edgeDistance spec);
          holePositions = getHolePositions spec (height binderPaper);
          holeX = (if pageSide = left then areaX + edgeDistancePt
                   else areaX + areaWidth - edgeDistancePt)
      in draw pdfPage
           ([DrawRectangle areaX areaY areaWidth areaHeight LINE_WIDTH]
            @ drawHoles holeX areaY holeRadius holePositions
            @ cropMarks areaX areaY areaWidth areaHeight))"

definition drawContentPage ::
  "PDFPage \<Rightarrow> ContentPage \<Rightarrow> BinderType \<Rightarrow> PaperSize \<Rightarrow> PageSide \<Rightarrow> bool \<Rightarrow> PDFPage" where
  "drawContentPage pdfPage contentPage binderType paperSz pageSide enablePadding =
     (let paper = PAPER_SIZES paperSz;
          pageHeightPt = mmToPoints (height paper);
          contentArea = getContentArea binderType paperSz pageSide enablePadding;
          pos = position contentPage;
          imgWidthMm = pxToMm (originalWidth contentPage) 150;
          imgHeightMm = pxToMm (originalHeight contentPage) 150;
          scaledWidth = imgWidthMm * scale pos;
          scaledHeight = imgHeightMm * scale pos;
          imgX = mmToPoints (offsetX contentArea + pos_x pos);
          imgY = mmToPoints (offsetY contentArea + pos_y pos)
      in draw pdfPage
           [DrawImage (dataUrl contentPage) imgX (pageHeightPt - imgY - mmToPoints scaledHeight)
              (mmToPoints scaledWidth) (mmToPoints scaledHeight)])"

definition drawContentPageAt ::
  "PDFPage \<Rightarrow> ContentPage \<Rightarrow> BinderType \<Rightarrow> PageSide \<Rightarrow> bool
     \<Rightarrow> real \<Rightarrow> real \<Rightarrow> real \<Rightarrow> real \<Rightarrow> PDFPage" where
  "drawContentPageAt pdfPage contentPage binderType pageSide enablePadding
       areaX areaY areaWidth areaHeight =
     (let spec = BINDER_SPECS binderType;
          padding = (if enablePadding then 5 else 0);
          holeMargin = mmToPoints (edgeDistance spec + holeDiameter spec / 2 + padding);
          pos = position contentPage;
          imgWidthMm = pxToMm (originalWidth contentPage) 150;
          imgHeightMm = pxToMm (originalHeight contentPage) 150;
          scaledWidthPt = mmToPoints (imgWidthMm * scale pos);
          scaledHeightPt = mmToPoints (imgHeightMm * scale pos);
          imgX = areaX + mmToPoints (pos_x pos) + (if pageSide = right then holeMargin else 0)
      in draw pdfPage
           [DrawImage (dataUrl contentPage) imgX
              (areaY + areaHeight - scaledHeightPt - mmToPoints (pos_y pos))
              scaledWidthPt scaledHeightPt])"

text \<open>
  One round of the loop of \<^verbatim>\<open>generate2UpPages\<close>: the content sheet and the outline sheet for
  \<^verbatim>\<open>firstPage = pages[i]\<close> and \<^verbatim>\<open>secondPage = pages[i + 1]\<close>, which is
  \<^verbatim>\<open>undefined\<close> (here \<open>None\<close>) past the end of the array.
\<close>

definition contentSheet2Up ::
  "ContentPage \<Rightarrow> ContentPage option \<Rightarrow> BinderType \<Rightarrow> PageSide \<Rightarrow> bool \<Rightarrow> PDFPage" where
  "contentSheet2Up firstPage secondPage binderType pageSide enablePadding =
     (let paper = PAPER_SIZES A4;
          a5Paper = PAPER_SIZES A5;
          pageWidthPt = mmToPoints (width paper);
          pageHeightPt = mmToPoints (height paper);
          a5WidthPt = mmToPoints (width a5Paper);
          a5HeightPt = mmToPoints (height a5Paper);
          contentPdfPage = newPage pageWidthPt pageHeightPt;
          contentPdfPage = drawContentPageAt contentPdfPage firstPage binderType pageSide
             enablePadding 0 (pageHeightPt - a5HeightPt) a5WidthPt a5HeightPt
      in case secondPage of
           Some second \<Rightarrow> drawContentPageAt contentPdfPage second binderType pageSide
             enablePadding 0 0 a5WidthPt a5HeightPt
         | None \<Rightarrow> contentPdfPage)"

definition outlineSheet2Up ::
  "ContentPage option \<Rightarrow> BinderType \<Rightarrow> PageSide \<Rightarrow> PDFPage" where
  "outlineSheet2Up secondPage binderType pageSide =
     (let paper = PAPER_SIZES A4;
          a5Paper = PAPER_SIZES A5;
          pageWidthPt = mmToPoints (width paper);
          pageHeightPt = mmToPoints (height paper);
          a5WidthPt = mmToPoints (width a5Paper);
          a5HeightPt = mmToPoints (height a5Paper);
          outlinePdfPage = newPage pageWidthPt pageHeightPt;
          outlinePdfPage = drawOutlineAt outlinePdfPage binderType pageSide
             (pageWidthPt - a5WidthPt) 0 a5WidthPt a5HeightPt
      in case secondPage of
           Some second \<Rightarrow> drawOutlineAt outlinePdfPage binderType pageSide
             (pageWidthPt - a5WidthPt) (pageHeightPt - a5HeightPt) a5WidthPt a5HeightPt
         | None \<Rightarrow> outlinePdfPage)"

text \<open>The loop \<^verbatim>\<open>for (let i = 0; i < pages.length; i += 2)\<close>, from index \<open>i\<close> on.\<close>

function generate2UpPages_from ::
  "nat \<Rightarrow> PDFDocument \<Rightarrow> ContentPage list \<Rightarrow> BinderType \<Rightarrow> PageSide \<Rightarrow> bool \<Rightarrow> PDFDocument" where
  "generate2UpPages_from i pdfDoc pages binderType pageSide enablePadding =
     (if i < length pages then
        (let firstPage = pages ! i;
             secondPage = (if i + 1 < length pages then Some (pages ! (i + 1)) else None);
             contentPdfPage = contentSheet2Up firstPage secondPage binderType pageSide enablePadding;
             outlinePdfPage = outlineSheet2Up secondPage binderType pageSide
         in generate2UpPages_from (i + 2) (pdfDoc @ [contentPdfPage, outlinePdfPage])
              pages binderType pageSide enablePadding)
      else pdfDoc)"
  by pat_completeness auto
termination
  by (relation "measure (\<lambda>(i, pdfDoc, pages, binderType, pageSide, enablePadding). length pages - i)")
     auto

declare generate2UpPages_from.simps [simp del]

definition generate2UpPages ::
  "PDFDocument \<Rightarrow> ContentPage list \<Rightarrow> BinderType \<Rightarrow> PageSide \<Rightarrow> bool \<Rightarrow> PDFDocument" where
  "generate2UpPages pdfDoc pages binderType pageSide enablePadding =
     generate2UpPages_from 0 pdfDoc pages binderType pageSide enablePadding"

text \<open>The test \<^verbatim>\<open>use2Up\<close> of \<^verbatim>\<open>generatePdf\<close>.\<close>

definition use2Up :: "ContentPage list \<Rightarrow> BinderType \<Rightarrow> PaperSize \<Rightarrow> bool" where
  "use2Up pages binderType paperSz =
     (paperSz = A4 \<and> paperSize (BINDER_SPECS binderType) = A5 \<and> length pages > 1)"

text \<open>
  \<^verbatim>\<open>generatePdf\<close>, with the fields of its options record as arguments; the result is the
  document before \<^verbatim>\<open>save\<close> serialises it.
\<close>

definition generatePdf ::
  "ContentPage list \<Rightarrow> BinderType \<Rightarrow> PaperSize \<Rightarrow> PageSide \<Rightarrow> bool \<Rightarrow> PDFDocument" where
  "generatePdf pages binderType paperSz pageSide enablePadding =
     (let pdfDoc = [];
          paper = PAPER_SIZES paperSz;
          pageWidthPt = mmToPoints (width paper);
          pageHeightPt = mmToPoints (height paper)
      in if use2Up pages binderType paperSz then
           generate2UpPages pdfDoc pages binderType pageSide enablePadding
         else
           foldl (\<lambda>doc contentPage.
               doc @ [drawContentPage (newPage pageWidthPt pageHeightPt) contentPage binderType
                        paperSz pageSide enablePadding,
                      drawOutline (newPage pageWidthPt pageHeightPt) binderType paperSz pageSide
                        False Single])
             pdfDoc pages)"

subsection \<open>contentProcessor.ts: scales\<close>

definition calculateFitScale :: "real \<Rightarrow> real \<Rightarrow> real \<Rightarrow> real \<Rightarrow> real" where
  "calculateFitScale contentWidth contentHeight targetWidth targetHeight =
     (let scaleX = fl (targetWidth / contentWidth);
          scaleY = fl (targetHeight / contentHeight)
      in min scaleX scaleY)"

definition calculateFillScale :: "real \<Rightarrow> real \<Rightarrow> real \<Rightarrow> real \<Rightarrow> real" where
  "calculateFillScale contentWidth contentHeight targetWidth targetHeight =
     (let scaleX = fl (targetWidth / contentWidth);
          scaleY = fl (targetHeight / contentHeight)
      in max scaleX scaleY)"

text \<open>The draw instructions of a page that are circles.\<close>

fun isCircle :: "DrawOp \<Rightarrow> bool" where
  "isCircle (DrawCircle x y r w) = True"
| "isCircle _ = False"

definition circles :: "PDFPage \<Rightarrow> DrawOp list" where
  "circles page = filter isCircle (ops page)"

fun isRectangle :: "DrawOp \<Rightarrow> bool" where
  "isRectangle (DrawRectangle x y w h b) = True"
| "isRectangle _ = False"

definition rectangles :: "PDFPage \<Rightarrow> DrawOp list" where
  "rectangles page = filter isRectangle (ops page)"

fun isImage :: "DrawOp \<Rightarrow> bool" where
  "isImage (DrawImage i x y w h) = True"
| "isImage _ = False"

definition images :: "PDFPage \<Rightarrow> DrawOp list" where
  "images page = filter isImage (ops page)"

text \<open>A content page for concrete instances: an image of 600 by 900 pixels, not moved or scaled.\<close>

definition samplePage :: ContentPage where
  "samplePage = \<lparr>
     page_id = ''page-1-0'',
     page_type = image,
     dataUrl = ''data:image/png;base64,AAAA'',
     originalWidth = 600,
     originalHeight = 900,
     position = \<lparr>pos_x = 0, pos_y = 0, scale = 1\<rparr> \<rparr>"

lemmas spec_defs =
  a5_20_hole_def a5_2_hole_def a5_6_hole_filofax_def a5_6_hole_standard_def a4_4_hole_def
  HOLE_DIAMETER_def

section \<open>Facts about rounding\<close>

lemma bitLength_bounds:
  "0 < n \<Longrightarrow> 2 ^ (bitLength n - 1) \<le> n \<and> n < 2 ^ bitLength n"
proof (induction n rule: bitLength.induct)
  case (1 n)
  show ?case
  proof (cases "n div 2 = 0")
    case True
    with \<open>0 < n\<close> have n1: "n = 1" by linarith
    have "bitLength 1 = 1"
      by (simp add: bitLength.simps [of "Suc 0"] bitLength.simps [of 0])
    then show ?thesis
      unfolding n1 by simp
  next
    case False
    then have ih: "2 ^ (bitLength (n div 2) - 1) \<le> n div 2 \<and> n div 2 < 2 ^ bitLength (n div 2)"
      using "1.IH" \<open>0 < n\<close> by simp
    have pos: "0 < bitLength (n div 2)"
      using False by (simp add: bitLength.simps [of "n div 2"])
    have b: "bitLength n = Suc (bitLength (n div 2))"
      using \<open>0 < n\<close> by (simp add: bitLength.simps [of n])
    have lo: "(2::nat) ^ (bitLength n - 1) = 2 * 2 ^ (bitLength (n div 2) - 1)"
      using pos unfolding b by (cases "bitLength (n div 2)") simp_all
    have hi: "(2::nat) ^ bitLength n = 2 * 2 ^ bitLength (n div 2)"
      unfolding b by simp
    have "2 * (n div 2) \<le> n" and "n < 2 * (n div 2) + 2"
      by linarith+
    with ih show ?thesis
      unfolding lo hi by linarith
  qed
qed

lemma bitLength_pos: "0 < n \<Longrightarrow> 0 < bitLength n"
  by (simp add: bitLength.simps [of n])

lemma bitLength_eqI:
  assumes "2 ^ (k - 1) \<le> n" and "n < 2 ^ k" and "0 < k"
  shows "bitLength n = k"
proof -
  have n: "0 < n" using assms(1) by (metis less_le_trans zero_less_numeral zero_less_power)
  note b = bitLength_bounds [OF n] and p = bitLength_pos [OF n]
  have "\<not> bitLength n < k"
  proof
    assume "bitLength n < k"
    then have "bitLength n \<le> k - 1" by simp
    then have "(2::nat) ^ bitLength n \<le> 2 ^ (k - 1)" by (simp add: power_increasing)
    with b assms(1) show False by linarith
  qed
  moreover have "\<not> k < bitLength n"
  proof
    assume "k < bitLength n"
    then have "k \<le> bitLength n - 1" by simp
    then have "(2::nat) ^ k \<le> 2 ^ (bitLength n - 1)" by (simp add: power_increasing)
    with b assms(2) show False by linarith
  qed
  ultimately show ?thesis by simp
qed

lemma roundEven_error: "\<bar>of_int (roundEven x) - x\<bar> \<le> 1 / 2"
  unfolding roundEven_def Let_def by (auto split: if_splits)

lemma roundEven_of_int [simp]: "roundEven (of_int n) = n"
  by (simp add: roundEven_def)

lemma bitLength_floor:
  fixes x :: real
  assumes "2 ^ (k - 1) \<le> x" and "x < 2 ^ k" and "0 < k"
  shows "bitLength (nat \<lfloor>x\<rfloor>) = k"
proof (rule bitLength_eqI)
  have "(2::real) ^ (k - 1) = of_int (2 ^ (k - 1))" by simp
  with assms(1) have "(2::int) ^ (k - 1) \<le> \<lfloor>x\<rfloor>"
    by (simp only: le_floor_iff)
  then have "int (2 ^ (k - 1)) \<le> \<lfloor>x\<rfloor>" by simp
  then show "2 ^ (k - 1) \<le> nat \<lfloor>x\<rfloor>"
    by linarith
  have "(2::real) ^ k = of_int (2 ^ k)" by simp
  with assms(2) have "\<lfloor>x\<rfloor> < (2::int) ^ k"
    by (simp only: floor_less_iff)
  moreover have "0 \<le> \<lfloor>x\<rfloor>"
    using \<open>(2::int) ^ (k - 1) \<le> \<lfloor>x\<rfloor>\<close> by (meson order_trans zero_le_numeral zero_le_power)
  ultimately show "nat \<lfloor>x\<rfloor> < 2 ^ k"
    by (simp add: nat_less_iff)
qed (rule assms(3))


lemma fl_eval:
  assumes "2 ^ (k - 1) \<le> x" and "x < 2 ^ k" and "0 < k"
  shows "fl x = of_int (roundEven (x * 2 ^ 53 / 2 ^ k)) * 2 ^ k / 2 ^ 53"
proof -
  have "(1::real) \<le> 2 ^ (k - 1)" by simp
  with assms(1) have x: "1 \<le> x" by linarith
  have "fl x = fl_pos x"
    using x by (simp add: fl_def)
  also have "\<dots> = of_int (roundEven (x * 2 ^ 53 / 2 ^ k)) * 2 ^ k / 2 ^ 53"
    unfolding fl_pos_def Let_def bitLength_floor [OF assms] using x by (simp only: if_True)
  finally show ?thesis .
qed

lemma fl_pos_error:
  assumes "0 < x"
  shows "\<bar>fl_pos x - x\<bar> \<le> x / 2 ^ 53"
proof (cases "1 \<le> x")
  case True
  define n where "n = nat \<lfloor>x\<rfloor>"
  define k where "k = bitLength n"
  define c :: real where "c = 2 ^ k / 2 ^ 53"
  define m where "m = x / c"
  have c: "0 < c" by (simp add: c_def)
  have n: "0 < n" using True by (simp add: n_def)
  have k: "0 < k" unfolding k_def by (rule bitLength_pos [OF n])
  have "real n \<le> x" using True by (simp add: n_def)
  moreover have "(2::real) ^ (k - 1) \<le> real n"
  proof -
    have "2 ^ (k - 1) \<le> n"
      using bitLength_bounds [OF n] unfolding k_def [symmetric] by simp
    then have "real (2 ^ (k - 1)) \<le> real n"
      by (simp only: of_nat_le_iff)
    then show ?thesis by simp
  qed
  ultimately have lo: "2 ^ (k - 1) \<le> x" by linarith
  have two: "(2::real) ^ k = 2 * 2 ^ (k - 1)"
    using k by (cases k) simp_all
  have half: "1 / 2 * c = 2 ^ (k - 1) / 2 ^ 53"
    unfolding c_def two by simp
  have mm: "x * 2 ^ 53 / 2 ^ k = m"
    by (simp add: m_def c_def)
  have f: "fl_pos x = of_int (roundEven m) * c"
    using True unfolding fl_pos_def Let_def n_def [symmetric] k_def [symmetric] mm
    by (simp add: c_def)
  have xm: "x = m * c"
    using c by (simp add: m_def)
  have "fl_pos x - x = (of_int (roundEven m) - m) * c"
    unfolding f by (subst xm) (simp add: algebra_simps)
  then have "\<bar>fl_pos x - x\<bar> = \<bar>of_int (roundEven m) - m\<bar> * c"
    using c by (simp add: abs_mult)
  also have "\<dots> \<le> 1 / 2 * c"
    by (rule mult_right_mono [OF roundEven_error]) (use c in simp)
  also have "\<dots> = 2 ^ (k - 1) / 2 ^ 53"
    by (rule half)
  also have "\<dots> \<le> x / 2 ^ 53"
    using lo by (simp add: divide_right_mono)
  finally show ?thesis .
next
  case False
  define n where "n = nat \<lfloor>1 / x\<rfloor>"
  define k where "k = bitLength n"
  define c :: real where "c = 1 / (2 ^ 52 * 2 ^ k)"
  define m where "m = x / c"
  have c: "0 < c" by (simp add: c_def)
  have y: "1 < 1 / x" using False assms by simp
  then have n: "0 < n" by (simp add: n_def)
  have "0 \<le> \<lfloor>1 / x\<rfloor>"
    using assms by simp
  then have "real n = of_int \<lfloor>1 / x\<rfloor>"
    unfolding n_def by simp
  then have "1 / x < real n + 1"
    by linarith
  moreover have "real n + 1 \<le> 2 ^ k"
  proof -
    have "n + 1 \<le> 2 ^ k"
      using bitLength_bounds [OF n] unfolding k_def [symmetric] by simp
    then have "real (n + 1) \<le> real (2 ^ k)"
      by (simp only: of_nat_le_iff)
    then show ?thesis by simp
  qed
  ultimately have "1 / x < 2 ^ k" by linarith
  then have lo: "1 / 2 ^ k < x"
    using assms by (simp add: field_simps)
  have half: "1 / 2 * c = (1 / 2 ^ k) / 2 ^ 53"
    unfolding c_def by simp
  have mm: "x * 2 ^ 52 * 2 ^ k = m"
    by (simp add: m_def c_def)
  have f: "fl_pos x = of_int (roundEven m) * c"
    using False unfolding fl_pos_def Let_def n_def [symmetric] k_def [symmetric] mm
    by (simp add: c_def)
  have xm: "x = m * c"
    using c by (simp add: m_def)
  have "fl_pos x - x = (of_int (roundEven m) - m) * c"
    unfolding f by (subst xm) (simp add: algebra_simps)
  then have "\<bar>fl_pos x - x\<bar> = \<bar>of_int (roundEven m) - m\<bar> * c"
    using c by (simp add: abs_mult)
  also have "\<dots> \<le> 1 / 2 * c"
    by (rule mult_right_mono [OF roundEven_error]) (use c in simp)
  also have "\<dots> = (1 / 2 ^ k) / 2 ^ 53"
    by (rule half)
  also have "\<dots> \<le> x / 2 ^ 53"
    using lo by (simp add: divide_right_mono)
  finally show ?thesis .
qed

lemma fl_error: "\<bar>fl x - x\<bar> \<le> \<bar>x\<bar> / 2 ^ 53"
proof -
  consider "x = 0" | "0 < x" | "x < 0" by linarith
  then show ?thesis
  proof cases
    case 1
    then show ?thesis by (simp add: fl_def)
  next
    case 2
    then show ?thesis using fl_pos_error [of x] by (simp add: fl_def)
  next
    case 3
    then show ?thesis using fl_pos_error [of "- x"] by (simp add: fl_def)
  qed
qed

lemma fl_zero [simp]: "fl 0 = 0"
  by (simp add: fl_def)

lemma fl_pos_iff: "0 < fl x \<longleftrightarrow> 0 < x"
proof -
  have "\<bar>x\<bar> / 2 ^ 53 < \<bar>x\<bar>" if "x \<noteq> 0"
    using that by (simp add: field_simps)
  with fl_error [of x] show ?thesis
    by (cases "x = 0") (simp, linarith)
qed

lemma fl_neg_iff: "fl x < 0 \<longleftrightarrow> x < 0"
proof -
  have "\<bar>x\<bar> / 2 ^ 53 < \<bar>x\<bar>" if "x \<noteq> 0"
    using that by (simp add: field_simps)
  with fl_error [of x] show ?thesis
    by (cases "x = 0") (simp, linarith)
qed

lemma fl_near:
  assumes "- 1000 \<le> x" and "x \<le> 1000"
  shows "x - 1 / 1000000000000 \<le> fl x" and "fl x \<le> x + 1 / 1000000000000"
proof -
  have "\<bar>x\<bar> / 2 ^ 53 \<le> 1000 / 2 ^ 53"
    using assms by (intro divide_right_mono) auto
  also have "\<dots> \<le> (1 / 1000000000000 :: real)"
    by simp
  finally have "\<bar>fl x - x\<bar> \<le> 1 / 1000000000000"
    using fl_error [of x] by linarith
  then show "x - 1 / 1000000000000 \<le> fl x" and "fl x \<le> x + 1 / 1000000000000"
    by linarith+
qed

section \<open>Facts about the catalog\<close>

lemma holeCount_catalog:
  "holeCount (BINDER_SPECS A5_20_hole) = 20" "holeCount (BINDER_SPECS A4_4_hole) = 4"
  "holeCount (BINDER_SPECS A5_2_hole) = 2" "holeCount (BINDER_SPECS A5_6_hole_filofax) = 6"
  "holeCount (BINDER_SPECS A5_6_hole_standard) = 6"
  by (simp_all add: BINDER_SPECS_def spec_defs)

lemma registry_consistent:
  "map_of BINDER_SPECS_object (binderTypeKey t) = Some (BINDER_SPECS t)"
  by (cases t) (simp_all add: BINDER_SPECS_object_def binderTypeKey_def BINDER_SPECS_def)

lemma prototype_keys_not_own:
  "key \<in> set Object_prototype_keys \<Longrightarrow> map_of BINDER_SPECS_object key = None"
  by (auto simp: Object_prototype_keys_def BINDER_SPECS_object_def)

lemma spaced_nth:
  assumes "i < n"
  shows "map (\<lambda>i. fl (s + fl (real i * p))) [0..<n] ! i = fl (s + fl (real i * p))"
  using assms by simp

lemma spaced_near:
  assumes "0 \<le> real i * p" and "real i * p \<le> 400" and "- 500 \<le> s" and "s \<le> 500"
  shows "s + real i * p - 2 / 1000000000000 \<le> fl (s + fl (real i * p))"
    and "fl (s + fl (real i * p)) \<le> s + real i * p + 2 / 1000000000000"
proof -
  have q: "real i * p - 1 / 1000000000000 \<le> fl (real i * p)"
      "fl (real i * p) \<le> real i * p + 1 / 1000000000000"
    using assms(1,2) by (intro fl_near; linarith)+
  have "- 1000 \<le> s + fl (real i * p)" "s + fl (real i * p) \<le> 1000"
    using q assms by linarith+
  then have "s + fl (real i * p) - 1 / 1000000000000 \<le> fl (s + fl (real i * p))"
      "fl (s + fl (real i * p)) \<le> s + fl (real i * p) + 1 / 1000000000000"
    by (intro fl_near; linarith)+
  with q show "s + real i * p - 2 / 1000000000000 \<le> fl (s + fl (real i * p))"
    and "fl (s + fl (real i * p)) \<le> s + real i * p + 2 / 1000000000000"
    by linarith+
qed

lemma spaced_index:
  assumes "i < n" and "0 \<le> p" and "real (n - 1) * p \<le> 400"
  shows "0 \<le> real i * p" and "real i * p \<le> 400"
proof -
  show "0 \<le> real i * p" using assms(2) by simp
  have "real i \<le> real (n - 1)" using assms(1) by linarith
  then have "real i * p \<le> real (n - 1) * p"
    using assms(2) by (rule mult_right_mono)
  with assms(3) show "real i * p \<le> 400" by linarith
qed

lemma spaced_sorted:
  assumes "1 \<le> p" and "real (n - 1) * p \<le> 400" and "- 500 \<le> s" and "s \<le> 500"
  shows "sorted (map (\<lambda>i. fl (s + fl (real i * p))) [0..<n])"
proof -
  have p: "0 \<le> p" using assms(1) by linarith
  have "map (\<lambda>i. fl (s + fl (real i * p))) [0..<n] ! i
          \<le> map (\<lambda>i. fl (s + fl (real i * p))) [0..<n] ! j"
    if "i < j" and "j < n" for i j
  proof -
    from that have i: "i < n" by simp
    have "real i + 1 \<le> real j" using that by linarith
    then have "(real i + 1) * p \<le> real j * p"
      using p by (rule mult_right_mono)
    then have "real i * p + p \<le> real j * p"
      by (simp add: distrib_right)
    with spaced_near(2) [OF spaced_index [OF i p assms(2)] assms(3,4)]
      spaced_near(1) [OF spaced_index [OF that(2) p assms(2)] assms(3,4)] assms(1)
    have "fl (s + fl (real i * p)) \<le> fl (s + fl (real j * p))"
      by linarith
    then show ?thesis
      using that by simp
  qed
  then show ?thesis
    by (simp only: sorted_iff_nth_mono_less length_map length_upt) simp
qed

lemma spaced_mirror:
  assumes "i < n" and "0 \<le> p" and "real (n - 1) * p \<le> 400" and "- 500 \<le> s" and "s \<le> 500"
  shows "\<bar>map (\<lambda>i. fl (s + fl (real i * p))) [0..<n] ! i
           + map (\<lambda>i. fl (s + fl (real i * p))) [0..<n] ! (n - 1 - i)
           - (2 * s + real (n - 1) * p)\<bar> \<le> 4 / 1000000000000"
proof -
  let ?j = "n - 1 - i"
  have j: "?j < n" using assms(1) by simp
  have "real i + real ?j = real (n - 1)" using assms(1) by linarith
  then have "(real i + real ?j) * p = real (n - 1) * p"
    by (simp only:)
  then have e: "real i * p + real ?j * p = real (n - 1) * p"
    by (simp only: distrib_right)
  show ?thesis
    unfolding spaced_nth [OF assms(1)] spaced_nth [OF j]
    using spaced_near [OF spaced_index [OF assms(1-3)] assms(4,5)]
      spaced_near [OF spaced_index [OF j assms(2,3)] assms(4,5)] e
    by linarith
qed


lemma two_mirror:
  fixes a b h t :: real
  assumes "i < 2" and "\<bar>a + b - h\<bar> \<le> t"
  shows "\<bar>[a, b] ! i + [a, b] ! (2 - 1 - i) - h\<bar> \<le> t"
proof -
  from \<open>i < 2\<close> consider "i = 0" | "i = 1" by linarith
  then show ?thesis
    using assms(2) by cases (simp_all add: add.commute)
qed

lemma six_mirror:
  fixes a b c d e f h t :: real
  assumes "i < 6" and "\<bar>a + f - h\<bar> \<le> t" and "\<bar>b + e - h\<bar> \<le> t" and "\<bar>c + d - h\<bar> \<le> t"
  shows "\<bar>[a, b, c, d, e, f] ! i + [a, b, c, d, e, f] ! (6 - 1 - i) - h\<bar> \<le> t"
proof -
  from \<open>i < 6\<close> consider "i = 0" | "i = 1" | "i = 2" | "i = 3" | "i = 4" | "i = 5"
    by linarith
  then show ?thesis
    using assms(2-4) by cases (simp_all add: add.commute)
qed

lemma holes_a5_20_hole:
  "getHolePositions (BINDER_SPECS A5_20_hole) h
     = map (\<lambda>i. fl (fl (fl (h - fl (fl 9.7 * 19)) / 2) + fl (real i * fl 9.7))) [0..<20]"
  by (simp add: BINDER_SPECS_def a5_20_hole_def Let_def)

lemma holes_a4_4_hole:
  "getHolePositions (BINDER_SPECS A4_4_hole) h
     = map (\<lambda>i. fl (fl (fl (h - fl (80 * 3)) / 2) + fl (real i * 80))) [0..<4]"
  by (simp add: BINDER_SPECS_def a4_4_hole_def Let_def)

lemma holes_a5_2_hole:
  "getHolePositions (BINDER_SPECS A5_2_hole) h
     = [fl (fl (h / 2) - fl (80 / 2)), fl (fl (h / 2) + fl (80 / 2))]"
  by (simp add: BINDER_SPECS_def a5_2_hole_def Let_def)

lemma holes_a5_6_hole_filofax:
  "getHolePositions (BINDER_SPECS A5_6_hole_filofax) h
     = [fl (fl (fl (fl (h / 2) - fl (fl 50.8 / 2)) - 19) - 19),
        fl (fl (fl (h / 2) - fl (fl 50.8 / 2)) - 19),
        fl (fl (fl (fl (h / 2) - fl (fl 50.8 / 2)) - 19) + 19),
        fl (fl (fl (fl (h / 2) + fl (fl 50.8 / 2)) + 19) - 19),
        fl (fl (fl (h / 2) + fl (fl 50.8 / 2)) + 19),
        fl (fl (fl (fl (h / 2) + fl (fl 50.8 / 2)) + 19) + 19)]"
  by (simp add: BINDER_SPECS_def a5_6_hole_filofax_def Let_def)

lemma holes_a5_6_hole_standard:
  "getHolePositions (BINDER_SPECS A5_6_hole_standard) h
     = [fl (fl (fl (fl (h / 2) - fl (70 / 2)) - 19) - 19),
        fl (fl (fl (h / 2) - fl (70 / 2)) - 19),
        fl (fl (fl (fl (h / 2) - fl (70 / 2)) - 19) + 19),
        fl (fl (fl (fl (h / 2) + fl (70 / 2)) + 19) - 19),
        fl (fl (fl (h / 2) + fl (70 / 2)) + 19),
        fl (fl (fl (fl (h / 2) + fl (70 / 2)) + 19) + 19)]"
  by (simp add: BINDER_SPECS_def a5_6_hole_standard_def Let_def)

text \<open>The start of an evenly spaced column: \<open>(h - span) / 2\<close>, rounded twice.\<close>

lemma startY_near:
  assumes "100 \<le> h" and "h \<le> 400" and "0 \<le> T" and "T \<le> 300"
  shows "h - T - 3 / 1000000000000 \<le> 2 * fl (fl (h - T) / 2)"
    and "2 * fl (fl (h - T) / 2) \<le> h - T + 3 / 1000000000000"
proof -
  have d: "h - T - 1 / 1000000000000 \<le> fl (h - T)" "fl (h - T) \<le> h - T + 1 / 1000000000000"
    using assms by (intro fl_near; linarith)+
  have "fl (h - T) / 2 - 1 / 1000000000000 \<le> fl (fl (h - T) / 2)"
       "fl (fl (h - T) / 2) \<le> fl (h - T) / 2 + 1 / 1000000000000"
    using d assms by (intro fl_near; linarith)+
  with d show "h - T - 3 / 1000000000000 \<le> 2 * fl (fl (h - T) / 2)"
    and "2 * fl (fl (h - T) / 2) \<le> h - T + 3 / 1000000000000"
    by linarith+
qed

lemma pitch_near:
  "9.7 - 1 / 1000000000000 \<le> fl 9.7" "fl 9.7 \<le> 9.7 + 1 / 1000000000000"
  by (intro fl_near; simp)+

lemma span20_near:
  "19 * fl 9.7 - 1 / 1000000000000 \<le> fl (fl 9.7 * 19)"
  "fl (fl 9.7 * 19) \<le> 19 * fl 9.7 + 1 / 1000000000000"
proof -
  have "fl 9.7 * 19 - 1 / 1000000000000 \<le> fl (fl 9.7 * 19)"
       "fl (fl 9.7 * 19) \<le> fl 9.7 * 19 + 1 / 1000000000000"
    using pitch_near by (intro fl_near; linarith)+
  then show "19 * fl 9.7 - 1 / 1000000000000 \<le> fl (fl 9.7 * 19)"
    "fl (fl 9.7 * 19) \<le> 19 * fl 9.7 + 1 / 1000000000000"
    by linarith+
qed

lemma span4_near:
  "240 - 1 / 1000000000000 \<le> fl (80 * 3)" "fl (80 * 3) \<le> 240 + 1 / 1000000000000"
  using fl_near [of "80 * 3"] by simp_all

lemma a5_20_sorted:
  assumes "100 \<le> h" and "h \<le> 400"
  shows "sorted (getHolePositions (BINDER_SPECS A5_20_hole) h)"
  unfolding holes_a5_20_hole
proof (rule spaced_sorted)
  have T: "0 \<le> fl (fl 9.7 * 19)" "fl (fl 9.7 * 19) \<le> 300"
    using span20_near pitch_near by linarith+
  show "1 \<le> fl 9.7" using pitch_near by linarith
  show "real (20 - 1) * fl 9.7 \<le> 400" using pitch_near by simp
  show "- 500 \<le> fl (fl (h - fl (fl 9.7 * 19)) / 2)" "fl (fl (h - fl (fl 9.7 * 19)) / 2) \<le> 500"
    using startY_near [OF assms T] T assms by linarith+
qed

lemma a4_4_sorted:
  assumes "100 \<le> h" and "h \<le> 400"
  shows "sorted (getHolePositions (BINDER_SPECS A4_4_hole) h)"
  unfolding holes_a4_4_hole
proof (rule spaced_sorted)
  have T: "0 \<le> fl (80 * 3)" "fl (80 * 3) \<le> 300"
    using span4_near by linarith+
  show "(1::real) \<le> 80" by simp
  show "real (4 - 1) * 80 \<le> 400" by simp
  show "- 500 \<le> fl (fl (h - fl (80 * 3)) / 2)" "fl (fl (h - fl (80 * 3)) / 2) \<le> 500"
    using startY_near [OF assms T] T assms by linarith+
qed

lemma a5_20_mirror:
  assumes "100 \<le> h" and "h \<le> 400" and "i < 20"
  shows "\<bar>getHolePositions (BINDER_SPECS A5_20_hole) h ! i
           + getHolePositions (BINDER_SPECS A5_20_hole) h ! (20 - 1 - i) - h\<bar> \<le> 1 / 1000000"
proof -
  have T: "0 \<le> fl (fl 9.7 * 19)" "fl (fl 9.7 * 19) \<le> 300"
    using span20_near pitch_near by linarith+
  have s: "- 500 \<le> fl (fl (h - fl (fl 9.7 * 19)) / 2)" "fl (fl (h - fl (fl 9.7 * 19)) / 2) \<le> 500"
    using startY_near [OF assms(1,2) T] T assms by linarith+
  have p: "0 \<le> fl 9.7" "real (20 - 1) * fl 9.7 \<le> 400"
    using pitch_near by simp_all
  have r: "real (20 - 1) = 19" by simp
  show ?thesis
    unfolding holes_a5_20_hole
    using spaced_mirror [OF assms(3) p s, unfolded r]
      startY_near [OF assms(1,2) T] span20_near
    by linarith
qed

lemma a4_4_mirror:
  assumes "100 \<le> h" and "h \<le> 400" and "i < 4"
  shows "\<bar>getHolePositions (BINDER_SPECS A4_4_hole) h ! i
           + getHolePositions (BINDER_SPECS A4_4_hole) h ! (4 - 1 - i) - h\<bar> \<le> 1 / 1000000"
proof -
  have T: "0 \<le> fl (80 * 3)" "fl (80 * 3) \<le> 300"
    using span4_near by linarith+
  have s: "- 500 \<le> fl (fl (h - fl (80 * 3)) / 2)" "fl (fl (h - fl (80 * 3)) / 2) \<le> 500"
    using startY_near [OF assms(1,2) T] T assms by linarith+
  have p: "(0::real) \<le> 80" "real (4 - 1) * 80 \<le> 400"
    by simp_all
  have r: "real (4 - 1) = 3" by simp
  show ?thesis
    unfolding holes_a4_4_hole
    using spaced_mirror [OF assms(3) p s, unfolded r]
      startY_near [OF assms(1,2) T] span4_near
    by linarith
qed


text \<open>The centre and the two groups of three.\<close>

lemma centre_near:
  assumes "100 \<le> h" and "h \<le> 400"
  shows "h - 2 / 1000000000000 \<le> 2 * fl (h / 2)" and "2 * fl (h / 2) \<le> h + 2 / 1000000000000"
  using fl_near [of "h / 2"] assms by linarith+

lemma two_holes:
  assumes "100 \<le> h" and "h \<le> 400" and "39 \<le> g" and "g \<le> 41"
  shows "fl (fl (h / 2) - g) \<le> fl (fl (h / 2) + g)"
    and "\<bar>fl (fl (h / 2) - g) + fl (fl (h / 2) + g) - h\<bar> \<le> 1 / 1000000"
proof -
  note c = centre_near [OF assms(1,2)]
  have lo: "fl (h / 2) - g - 1 / 1000000000000 \<le> fl (fl (h / 2) - g)"
           "fl (fl (h / 2) - g) \<le> fl (h / 2) - g + 1 / 1000000000000"
    using c assms by (intro fl_near; linarith)+
  have hi: "fl (h / 2) + g - 1 / 1000000000000 \<le> fl (fl (h / 2) + g)"
           "fl (fl (h / 2) + g) \<le> fl (h / 2) + g + 1 / 1000000000000"
    using c assms by (intro fl_near; linarith)+
  show "fl (fl (h / 2) - g) \<le> fl (fl (h / 2) + g)"
    using lo hi assms by linarith
  show "\<bar>fl (fl (h / 2) - g) + fl (fl (h / 2) + g) - h\<bar> \<le> 1 / 1000000"
    using lo hi c by linarith
qed

lemma six_holes:
  fixes h g :: real
  defines "tg \<equiv> fl (fl (fl (h / 2) - g) - 19)"
    and "bg \<equiv> fl (fl (fl (h / 2) + g) + 19)"
  assumes "100 \<le> h" and "h \<le> 400" and "20 \<le> g" and "g \<le> 40"
  shows "sorted [fl (tg - 19), tg, fl (tg + 19), fl (bg - 19), bg, fl (bg + 19)]"
    and "\<bar>fl (tg - 19) + fl (bg + 19) - h\<bar> \<le> 1 / 1000000"
    and "\<bar>tg + bg - h\<bar> \<le> 1 / 1000000"
    and "\<bar>fl (tg + 19) + fl (bg - 19) - h\<bar> \<le> 1 / 1000000"
proof -
  note c = centre_near [OF assms(3,4)]
  have u: "fl (h / 2) - g - 1 / 1000000000000 \<le> fl (fl (h / 2) - g)"
          "fl (fl (h / 2) - g) \<le> fl (h / 2) - g + 1 / 1000000000000"
    using c assms(3-6) by (intro fl_near; linarith)+
  have v: "fl (h / 2) + g - 1 / 1000000000000 \<le> fl (fl (h / 2) + g)"
          "fl (fl (h / 2) + g) \<le> fl (h / 2) + g + 1 / 1000000000000"
    using c assms(3-6) by (intro fl_near; linarith)+
  have t: "fl (fl (h / 2) - g) - 19 - 1 / 1000000000000 \<le> tg"
          "tg \<le> fl (fl (h / 2) - g) - 19 + 1 / 1000000000000"
    unfolding tg_def using u c assms(3-6) by (intro fl_near; linarith)+
  have b: "fl (fl (h / 2) + g) + 19 - 1 / 1000000000000 \<le> bg"
          "bg \<le> fl (fl (h / 2) + g) + 19 + 1 / 1000000000000"
    unfolding bg_def using v c assms(3-6) by (intro fl_near; linarith)+
  have t1: "tg - 19 - 1 / 1000000000000 \<le> fl (tg - 19)" "fl (tg - 19) \<le> tg - 19 + 1 / 1000000000000"
    using t u c assms(3-6) by (intro fl_near; linarith)+
  have t2: "tg + 19 - 1 / 1000000000000 \<le> fl (tg + 19)" "fl (tg + 19) \<le> tg + 19 + 1 / 1000000000000"
    using t u c assms(3-6) by (intro fl_near; linarith)+
  have b1: "bg - 19 - 1 / 1000000000000 \<le> fl (bg - 19)" "fl (bg - 19) \<le> bg - 19 + 1 / 1000000000000"
    using b v c assms(3-6) by (intro fl_near; linarith)+
  have b2: "bg + 19 - 1 / 1000000000000 \<le> fl (bg + 19)" "fl (bg + 19) \<le> bg + 19 + 1 / 1000000000000"
    using b v c assms(3-6) by (intro fl_near; linarith)+
  have o1: "fl (tg - 19) \<le> tg" using t1 by linarith
  have o2: "tg \<le> fl (tg + 19)" using t2 by linarith
  have o3: "fl (tg + 19) \<le> fl (bg - 19)" using t2 b1 t b u v assms(5) by linarith
  have o4: "fl (bg - 19) \<le> bg" using b1 by linarith
  have o5: "bg \<le> fl (bg + 19)" using b2 by linarith
  show "sorted [fl (tg - 19), tg, fl (tg + 19), fl (bg - 19), bg, fl (bg + 19)]"
    using o1 o2 o3 o4 o5 by simp
  show "\<bar>fl (tg - 19) + fl (bg + 19) - h\<bar> \<le> 1 / 1000000"
    using t1 b2 t b u v c by linarith
  show "\<bar>tg + bg - h\<bar> \<le> 1 / 1000000"
    using t b u v c by linarith
  show "\<bar>fl (tg + 19) + fl (bg - 19) - h\<bar> \<le> 1 / 1000000"
    using t2 b1 t b u v c by linarith
qed

lemma gap2_near: "39 \<le> fl (80 / 2)" "fl (80 / 2) \<le> 41"
  using fl_near [of "80 / 2"] by simp_all

lemma gap_standard_near: "20 \<le> fl (70 / 2)" "fl (70 / 2) \<le> 40"
  using fl_near [of "70 / 2"] by simp_all

lemma gap_filofax_near: "20 \<le> fl (fl 50.8 / 2)" "fl (fl 50.8 / 2) \<le> 40"
proof -
  have a: "50 \<le> fl 50.8" "fl 50.8 \<le> 51"
    using fl_near [of "50.8"] by simp_all
  then show "20 \<le> fl (fl 50.8 / 2)" "fl (fl 50.8 / 2) \<le> 40"
    using fl_near [of "fl 50.8 / 2"] by linarith+
qed

lemma pitch_value: "fl 9.7 = 2730307274093363 / 2 ^ 48"
  by (subst fl_eval [of 4]) (simp_all add: roundEven_def)

lemma span20_value: "fl (fl 9.7 * 19) = 6484479775971737 / 2 ^ 45"
  unfolding pitch_value by (subst fl_eval [of 8]) (simp_all add: roundEven_def)

lemma a5_20_nth:
  "i < 20 \<Longrightarrow>
   getHolePositions (BINDER_SPECS A5_20_hole) h ! i
     = fl (fl (fl (h - fl (fl 9.7 * 19)) / 2) + fl (real i * fl 9.7))"
  unfolding holes_a5_20_hole by (rule spaced_nth)

lemma a5_2_at_297:
  "getHolePositions (BINDER_SPECS A5_2_hole) 297 = [108.5, 188.5]"
proof -
  have c: "fl (297 / 2) = 297 / 2"
    by (subst fl_eval [of 8]) (simp_all add: roundEven_def)
  have g: "fl (80 / 2) = 40"
    by (subst fl_eval [of 6]) (simp_all add: roundEven_def)
  have lo: "fl (297 / 2 - 40) = 108.5"
    by (subst fl_eval [of 7]) (simp_all add: roundEven_def)
  have hi: "fl (297 / 2 + 40) = 188.5"
    by (subst fl_eval [of 8]) (simp_all add: roundEven_def)
  show ?thesis
    unfolding holes_a5_2_hole c g lo hi ..
qed

lemma a5_2_at_210:
  "getHolePositions (BINDER_SPECS A5_2_hole) 210 = [65, 145]"
proof -
  have c: "fl (210 / 2) = 105"
    by (subst fl_eval [of 7]) (simp_all add: roundEven_def)
  have g: "fl (80 / 2) = 40"
    by (subst fl_eval [of 6]) (simp_all add: roundEven_def)
  have lo: "fl (105 - 40) = 65"
    by (subst fl_eval [of 7]) (simp_all add: roundEven_def)
  have hi: "fl (105 + 40) = 145"
    by (subst fl_eval [of 8]) (simp_all add: roundEven_def)
  show ?thesis
    unfolding holes_a5_2_hole c g lo hi ..
qed

lemma getContentArea_positive:
  "0 < width (getContentArea t p side pad) \<and> 0 < height (getContentArea t p side pad)"
  by (cases t; cases pad)
     (simp_all add: getContentArea_def contentAreaOf_def BINDER_SPECS_def spec_defs PAPER_SIZES_def
        Let_def split: prod.split)

section \<open>Facts about drawing and the 2-up loop\<close>

lemma ops_draw: "ops (draw pg new) = ops pg @ new"
  by (simp add: draw_def)

lemma ops_newPage: "ops (newPage w h) = []"
  by (simp add: newPage_def)

lemma circles_cropMarks: "filter isCircle (cropMarks x y w h) = []"
  by (simp add: cropMarks_def Let_def)

lemma circles_drawHoles: "filter isCircle (drawHoles hx y r ps) = drawHoles hx y r ps"
  by (simp add: drawHoles_def)

lemma rectangles_cropMarks: "filter isRectangle (cropMarks x y w h) = []"
  by (simp add: cropMarks_def Let_def)

lemma rectangles_drawHoles: "filter isRectangle (drawHoles hx y r ps) = []"
  by (simp add: drawHoles_def)

lemma holes_length: "length (getHolePositions (BINDER_SPECS t) h) = holeCount (BINDER_SPECS t)"
  by (cases t) (simp_all add: BINDER_SPECS_def spec_defs Let_def)

lemma circles_drawOutline:
  "circles (drawOutline pg t p side is2Up pos) =
     circles pg @
     drawHoles
       (if side = left
        then fst (drawOutline_area t p is2Up pos)
               + mmToPoints (width (PAPER_SIZES (paperSize (BINDER_SPECS t))))
               - mmToPoints (edgeDistance (BINDER_SPECS t))
        else fst (drawOutline_area t p is2Up pos) + mmToPoints (edgeDistance (BINDER_SPECS t)))
       (snd (drawOutline_area t p is2Up pos))
       (mmToPoints (holeDiameter (BINDER_SPECS t)) / 2)
       (getHolePositions (BINDER_SPECS t) (height (PAPER_SIZES (paperSize (BINDER_SPECS t)))))"
  by (simp add: circles_def drawOutline_def Let_def ops_draw circles_cropMarks circles_drawHoles
        split: prod.split)

lemma circles_drawOutlineAt:
  "circles (drawOutlineAt pg t side ax ay aw ah) =
     circles pg @
     drawHoles
       (if side = left then ax + mmToPoints (edgeDistance (BINDER_SPECS t))
        else ax + aw - mmToPoints (edgeDistance (BINDER_SPECS t)))
       ay
       (mmToPoints (holeDiameter (BINDER_SPECS t)) / 2)
       (getHolePositions (BINDER_SPECS t) (height (PAPER_SIZES (paperSize (BINDER_SPECS t)))))"
  by (simp add: circles_def drawOutlineAt_def Let_def ops_draw circles_cropMarks circles_drawHoles)

lemma rectangles_drawOutlineAt:
  "rectangles (drawOutlineAt pg t side ax ay aw ah) =
     rectangles pg @ [DrawRectangle ax ay aw ah LINE_WIDTH]"
  by (simp add: rectangles_def drawOutlineAt_def Let_def ops_draw rectangles_cropMarks
        rectangles_drawHoles)

lemma from_done:
  "\<not> i < length pages \<Longrightarrow> generate2UpPages_from i doc pages t s pad = doc"
  by (subst generate2UpPages_from.simps) simp

lemma from_step:
  "i < length pages \<Longrightarrow>
   generate2UpPages_from i doc pages t s pad =
     generate2UpPages_from (i + 2)
       (doc @ [contentSheet2Up (pages ! i)
                 (if i + 1 < length pages then Some (pages ! (i + 1)) else None) t s pad,
               outlineSheet2Up (if i + 1 < length pages then Some (pages ! (i + 1)) else None) t s])
       pages t s pad"
  by (subst generate2UpPages_from.simps) (simp add: Let_def)

lemma from_append:
  "generate2UpPages_from i doc pages t s pad = doc @ generate2UpPages_from i [] pages t s pad"
proof (induction "length pages - i" arbitrary: i doc rule: less_induct)
  case less
  show ?case
  proof (cases "i < length pages")
    case True
    then have d: "length pages - (i + 2) < length pages - i" by simp
    show ?thesis
      unfolding from_step [OF True, of doc] from_step [OF True, of "[]"]
      by (subst less [OF d]) (subst (2) less [OF d], simp)
  next
    case False
    then show ?thesis by (simp add: from_done)
  qed
qed

lemma from_unfold:
  "i < length pages \<Longrightarrow>
   generate2UpPages_from i [] pages t s pad =
     [contentSheet2Up (pages ! i)
        (if i + 1 < length pages then Some (pages ! (i + 1)) else None) t s pad,
      outlineSheet2Up (if i + 1 < length pages then Some (pages ! (i + 1)) else None) t s]
     @ generate2UpPages_from (i + 2) [] pages t s pad"
  by (subst from_step, assumption, subst from_append) simp

lemma from_length:
  "length (generate2UpPages_from i [] pages t s pad) = 2 * ((length pages - i + 1) div 2)"
proof (induction "length pages - i" arbitrary: i rule: less_induct)
  case less
  show ?case
  proof (cases "i < length pages")
    case True
    then have d: "length pages - (i + 2) < length pages - i" by simp
    have e: "(length pages - i + 1) div 2 = Suc ((length pages - (i + 2) + 1) div 2)"
      using True by presburger
    have ih: "length (generate2UpPages_from (i + 2) [] pages t s pad)
                = 2 * ((length pages - (i + 2) + 1) div 2)"
      by (rule less [OF d])
    have "length (generate2UpPages_from i [] pages t s pad)
            = 2 + length (generate2UpPages_from (i + 2) [] pages t s pad)"
      unfolding from_unfold [OF True] by simp
    then show ?thesis
      unfolding ih e by simp
  next
    case False
    then show ?thesis by (simp add: from_done)
  qed
qed

lemma from_nth:
  "i + 2 * k < length pages \<Longrightarrow>
   generate2UpPages_from i [] pages t s pad ! (2 * k) =
     contentSheet2Up (pages ! (i + 2 * k))
       (if i + 2 * k + 1 < length pages then Some (pages ! (i + 2 * k + 1)) else None) t s pad
   \<and> generate2UpPages_from i [] pages t s pad ! (2 * k + 1) =
     outlineSheet2Up (if i + 2 * k + 1 < length pages then Some (pages ! (i + 2 * k + 1)) else None) t s"
proof (induction k arbitrary: i)
  case 0
  then have "i < length pages" by simp
  then show ?case by (simp add: from_unfold)
next
  case (Suc k)
  then have i: "i < length pages" and k: "(i + 2) + 2 * k < length pages" by simp_all
  have e: "i + 2 * Suc k = i + 2 + 2 * k" by simp
  show ?case
    unfolding e using Suc.IH [OF k] by (simp add: from_unfold [OF i])
qed

lemma ceil_half: "nat \<lceil>real n / 2\<rceil> = (n + 1) div 2"
  by linarith

lemma use2Up_iff:
  "use2Up pages t p \<longleftrightarrow> p = A4 \<and> paperSize (BINDER_SPECS t) = A5 \<and> 2 \<le> length pages"
  by (auto simp: use2Up_def)

lemma generatePdf_2up:
  "use2Up pages t p \<Longrightarrow>
   generatePdf pages t p s pad = generate2UpPages_from 0 [] pages t s pad"
  by (simp add: generatePdf_def generate2UpPages_def Let_def)

lemma contentSheet2Up_explicit:
  "contentSheet2Up first second t s pad =
     (case second of
        Some sec \<Rightarrow>
          drawContentPageAt
            (drawContentPageAt (newPage (mmToPoints 210) (mmToPoints 297)) first t s pad
               0 (mmToPoints 297 - mmToPoints 210) (mmToPoints 148) (mmToPoints 210))
            sec t s pad 0 0 (mmToPoints 148) (mmToPoints 210)
      | None \<Rightarrow>
          drawContentPageAt (newPage (mmToPoints 210) (mmToPoints 297)) first t s pad
            0 (mmToPoints 297 - mmToPoints 210) (mmToPoints 148) (mmToPoints 210))"
  by (simp add: contentSheet2Up_def Let_def PAPER_SIZES_def split: option.split)

lemma outlineSheet2Up_explicit:
  "outlineSheet2Up second t s =
     (case second of
        Some sec \<Rightarrow>
          drawOutlineAt
            (drawOutlineAt (newPage (mmToPoints 210) (mmToPoints 297)) t s
               (mmToPoints 210 - mmToPoints 148) 0 (mmToPoints 148) (mmToPoints 210))
            t s (mmToPoints 210 - mmToPoints 148) (mmToPoints 297 - mmToPoints 210)
            (mmToPoints 148) (mmToPoints 210)
      | None \<Rightarrow>
          drawOutlineAt (newPage (mmToPoints 210) (mmToPoints 297)) t s
            (mmToPoints 210 - mmToPoints 148) 0 (mmToPoints 148) (mmToPoints 210))"
  by (simp add: outlineSheet2Up_def Let_def PAPER_SIZES_def split: option.split)

lemma rectangles_newPage: "rectangles (newPage w h) = []"
  by (simp add: rectangles_def ops_newPage)

lemma images_newPage: "images (newPage w h) = []"
  by (simp add: images_def ops_newPage)

lemma images_cropMarks: "filter isImage (cropMarks x y w h) = []"
  by (simp add: cropMarks_def Let_def)

lemma images_drawHoles: "filter isImage (drawHoles hx y r ps) = []"
  by (simp add: drawHoles_def)

lemma images_drawOutlineAt:
  "images (drawOutlineAt pg t side ax ay aw ah) = images pg"
  by (simp add: images_def drawOutlineAt_def Let_def ops_draw images_cropMarks images_drawHoles)

lemma images_drawContentPageAt:
  "length (images (drawContentPageAt pg c t s pad x y w h)) = Suc (length (images pg))"
  by (simp add: images_def drawContentPageAt_def Let_def ops_draw)

lemma twoUp_sheets:
  assumes "use2Up pages t p" and "2 * k < length pages"
  shows "generatePdf pages t p s pad ! (2 * k) =
           (if 2 * k + 1 < length pages
            then drawContentPageAt
                   (drawContentPageAt (newPage (mmToPoints 210) (mmToPoints 297)) (pages ! (2 * k))
                      t s pad 0 (mmToPoints 297 - mmToPoints 210) (mmToPoints 148) (mmToPoints 210))
                   (pages ! (2 * k + 1)) t s pad 0 0 (mmToPoints 148) (mmToPoints 210)
            else drawContentPageAt (newPage (mmToPoints 210) (mmToPoints 297)) (pages ! (2 * k))
                   t s pad 0 (mmToPoints 297 - mmToPoints 210) (mmToPoints 148) (mmToPoints 210))"
    and "generatePdf pages t p s pad ! (2 * k + 1) =
           (if 2 * k + 1 < length pages
            then drawOutlineAt
                   (drawOutlineAt (newPage (mmToPoints 210) (mmToPoints 297)) t s
                      (mmToPoints 210 - mmToPoints 148) 0 (mmToPoints 148) (mmToPoints 210))
                   t s (mmToPoints 210 - mmToPoints 148) (mmToPoints 297 - mmToPoints 210)
                   (mmToPoints 148) (mmToPoints 210)
            else drawOutlineAt (newPage (mmToPoints 210) (mmToPoints 297)) t s
                   (mmToPoints 210 - mmToPoints 148) 0 (mmToPoints 148) (mmToPoints 210))"
proof -
  from assms(2) have k: "0 + 2 * k < length pages" by simp
  note nth = from_nth [OF k, of t s pad]
  show "generatePdf pages t p s pad ! (2 * k) =
           (if 2 * k + 1 < length pages
            then drawContentPageAt
                   (drawContentPageAt (newPage (mmToPoints 210) (mmToPoints 297)) (pages ! (2 * k))
                      t s pad 0 (mmToPoints 297 - mmToPoints 210) (mmToPoints 148) (mmToPoints 210))
                   (pages ! (2 * k + 1)) t s pad 0 0 (mmToPoints 148) (mmToPoints 210)
            else drawContentPageAt (newPage (mmToPoints 210) (mmToPoints 297)) (pages ! (2 * k))
                   t s pad 0 (mmToPoints 297 - mmToPoints 210) (mmToPoints 148) (mmToPoints 210))"
    unfolding generatePdf_2up [OF assms(1)]
    using nth by (simp add: contentSheet2Up_explicit)
  show "generatePdf pages t p s pad ! (2 * k + 1) =
           (if 2 * k + 1 < length pages
            then drawOutlineAt
                   (drawOutlineAt (newPage (mmToPoints 210) (mmToPoints 297)) t s
                      (mmToPoints 210 - mmToPoints 148) 0 (mmToPoints 148) (mmToPoints 210))
                   t s (mmToPoints 210 - mmToPoints 148) (mmToPoints 297 - mmToPoints 210)
                   (mmToPoints 148) (mmToPoints 210)
            else drawOutlineAt (newPage (mmToPoints 210) (mmToPoints 297)) t s
                   (mmToPoints 210 - mmToPoints 148) 0 (mmToPoints 148) (mmToPoints 210))"
    unfolding generatePdf_2up [OF assms(1)]
    using nth by (simp add: outlineSheet2Up_explicit)
qed

lemma twoUp_length:
  "use2Up pages t p \<Longrightarrow>
   length (generatePdf pages t p s pad) = 2 * nat \<lceil>real (length pages) / 2\<rceil>"
  by (simp add: generatePdf_2up from_length ceil_half)

lemma last_pair:
  assumes "0 < n"
  shows "2 * (nat \<lceil>real n / 2\<rceil> - 1) < n"
    and "2 * (nat \<lceil>real n / 2\<rceil> - 1) + 1 < n \<longleftrightarrow> even n"
  unfolding ceil_half using assms by presburger+

lemma gaps_positive:
  "0 < mmToPoints 297 - mmToPoints 210" "0 < mmToPoints 210 - mmToPoints 148"
  by (simp_all add: mmToPoints_def)

lemma foldl_append_concat:
  "foldl (\<lambda>doc x. doc @ f x) acc xs = acc @ concat (map f xs)"
  by (induction xs arbitrary: acc) simp_all

lemma length_concat_pairs:
  "length (concat (map (\<lambda>x. [f x, g x]) xs)) = 2 * length xs"
  by (induction xs) simp_all

lemma generatePdf_single:
  "\<not> use2Up pages t p \<Longrightarrow>
   generatePdf pages t p s pad =
     concat (map (\<lambda>contentPage.
        [drawContentPage
           (newPage (mmToPoints (width (PAPER_SIZES p))) (mmToPoints (height (PAPER_SIZES p))))
           contentPage t p s pad,
         drawOutline
           (newPage (mmToPoints (width (PAPER_SIZES p))) (mmToPoints (height (PAPER_SIZES p))))
           t p s False Single]) pages)"
  by (simp add: generatePdf_def Let_def foldl_append_concat)

lemma single_content_images:
  "length (images (drawContentPage pg c t p s pad)) = Suc (length (images pg))"
  by (simp add: images_def drawContentPage_def Let_def ops_draw)

lemma nth_concat_pairs_even:
  "k < length xs \<Longrightarrow> concat (map (\<lambda>x. [f x, g x]) xs) ! (2 * k) = f (xs ! k)"
proof (induction xs arbitrary: k)
  case Nil
  then show ?case by simp
next
  case (Cons x xs)
  then show ?case by (cases k) simp_all
qed

lemma nth_concat_pairs_odd:
  "k < length xs \<Longrightarrow> concat (map (\<lambda>x. [f x, g x]) xs) ! Suc (2 * k) = g (xs ! k)"
proof (induction xs arbitrary: k)
  case Nil
  then show ?case by simp
next
  case (Cons x xs)
  then show ?case by (cases k) simp_all
qed

section \<open>The geometry resolver\<close>

text \<open>
  C3. When the target paper size is the standard's native size, \<open>getContentArea\<close> returns
  the native width less the hole margin, the native height, vertical offset 0, and horizontal
  offset 0 for a left page and the hole margin for a right page, the hole margin being
  edge distance + half the hole diameter + 5 when padding is on. For the 20-hole standard on
  A5, left page, no padding, the margin is 8.5 and the area is 139.5 by 210 at (0, 0).
\<close>

theorem getContentArea_native:
  "(paperSz = paperSize (BINDER_SPECS t) \<longrightarrow>
      getContentArea t paperSz side pad =
        \<lparr>width = width (PAPER_SIZES (paperSize (BINDER_SPECS t))) - holeMarginOf (BINDER_SPECS t) pad,
         height = height (PAPER_SIZES (paperSize (BINDER_SPECS t))),
         offsetX = (if side = left then 0 else holeMarginOf (BINDER_SPECS t) pad),
         offsetY = 0\<rparr>)
   \<and> holeMarginOf (BINDER_SPECS A5_20_hole) False = 8.5
   \<and> getContentArea A5_20_hole A5 left False =
        \<lparr>width = 139.5, height = 210, offsetX = 0, offsetY = 0\<rparr>"
  by (simp add: getContentArea_def contentAreaOf_def holeMarginOf_def Let_def
        BINDER_SPECS_def spec_defs PAPER_SIZES_def)

theorem getContentArea_native_witness:
  "A5 = paperSize (BINDER_SPECS A5_2_hole) \<and>
   getContentArea A5_2_hole A5 right True =
     \<lparr>width = 128, height = 210, offsetX = 20, offsetY = 0\<rparr>"
  using getContentArea_native [of A5 A5_2_hole right True]
  by (simp add: holeMarginOf_def BINDER_SPECS_def spec_defs PAPER_SIZES_def)

section \<open>Hole positions\<close>

text \<open>
  C4. For every standard of the catalog and every sheet height from 100mm to 400mm,
  \<open>getHolePositions\<close> returns exactly \<open>holeCount\<close> offsets, in non-decreasing order.
\<close>

theorem holePositions_count_sorted:
  "100 \<le> h \<Longrightarrow> h \<le> 400 \<Longrightarrow>
   length (getHolePositions (BINDER_SPECS t) h) = holeCount (BINDER_SPECS t) \<and>
   sorted (getHolePositions (BINDER_SPECS t) h)"
proof (intro conjI)
  assume h: "100 \<le> h" "h \<le> 400"
  show "length (getHolePositions (BINDER_SPECS t) h) = holeCount (BINDER_SPECS t)"
    by (rule holes_length)
  show "sorted (getHolePositions (BINDER_SPECS t) h)"
  proof (cases t)
    case A5_20_hole
    then show ?thesis using a5_20_sorted [OF h] by simp
  next
    case A5_2_hole
    then show ?thesis
      using two_holes(1) [OF h gap2_near] by (simp add: holes_a5_2_hole)
  next
    case A5_6_hole_filofax
    then show ?thesis
      using six_holes(1) [OF h gap_filofax_near] by (simp only: holes_a5_6_hole_filofax)
  next
    case A5_6_hole_standard
    then show ?thesis
      using six_holes(1) [OF h gap_standard_near] by (simp only: holes_a5_6_hole_standard)
  next
    case A4_4_hole
    then show ?thesis using a4_4_sorted [OF h] by simp
  qed
qed

theorem holePositions_count_sorted_witness:
  "100 \<le> (297::real) \<and> 297 \<le> (400::real) \<and>
   getHolePositions (BINDER_SPECS A5_2_hole) 297 = [108.5, 188.5] \<and>
   length (getHolePositions (BINDER_SPECS A5_2_hole) 297) = holeCount (BINDER_SPECS A5_2_hole) \<and>
   sorted (getHolePositions (BINDER_SPECS A5_2_hole) 297)"
  using holePositions_count_sorted [of 297 A5_2_hole] a5_2_at_297 by simp

text \<open>
  C8, as the code has it. The claim that the offsets are symmetric to within 1e-6mm for every
  sheet height fails in doubles: for the 20-hole standard at the height \<open>2 ^ 36\<close> the fourth
  offset from the start and the fourth from the end add up to the height less \<open>2 ^ -17\<close>,
  about 7.6e-6.
\<close>

theorem holePositions_symmetric_counterexample:
  "fl 68719476736 = 68719476736 \<and>
   (3::nat) < holeCount (BINDER_SPECS A5_20_hole) \<and>
   getHolePositions (BINDER_SPECS A5_20_hole) 68719476736 ! 3 = 2251799809553203 / 2 ^ 16 \<and>
   getHolePositions (BINDER_SPECS A5_20_hole) 68719476736
     ! (holeCount (BINDER_SPECS A5_20_hole) - 1 - 3) = 4503599635634585 / 2 ^ 17 \<and>
   \<bar>getHolePositions (BINDER_SPECS A5_20_hole) 68719476736 ! 3
      + getHolePositions (BINDER_SPECS A5_20_hole) 68719476736
          ! (holeCount (BINDER_SPECS A5_20_hole) - 1 - 3)
      - 68719476736\<bar> = 1 / 2 ^ 17 \<and>
   \<not> (1 / 2 ^ 17 \<le> (1 / 10 ^ 6 :: real))"
proof -
  have h: "fl 68719476736 = 68719476736"
    by (subst fl_eval [of 37]) (simp_all add: roundEven_def)
  have D: "fl (68719476736 - fl (fl 9.7 * 19)) = 4503599615292211 / 2 ^ 16"
    unfolding span20_value by (subst fl_eval [of 36]) (simp_all add: roundEven_def)
  have S: "fl (fl (68719476736 - fl (fl 9.7 * 19)) / 2) = 4503599615292211 / 2 ^ 17"
    unfolding D by (subst fl_eval [of 35]) (simp_all add: roundEven_def)
  have Q3: "fl (real 3 * fl 9.7) = 8190921822280089 / 2 ^ 48"
    unfolding pitch_value by (subst fl_eval [of 5]) (simp_all add: roundEven_def)
  have Q16: "fl (real 16 * fl 9.7) = 2730307274093363 / 2 ^ 44"
    unfolding pitch_value by (subst fl_eval [of 8]) (simp_all add: roundEven_def)
  have A3: "fl (fl (fl (68719476736 - fl (fl 9.7 * 19)) / 2) + fl (real 3 * fl 9.7))
              = 2251799809553203 / 2 ^ 16"
    unfolding S Q3 by (subst fl_eval [of 35]) (simp_all add: roundEven_def)
  have A16: "fl (fl (fl (68719476736 - fl (fl 9.7 * 19)) / 2) + fl (real 16 * fl 9.7))
              = 4503599635634585 / 2 ^ 17"
    unfolding S Q16 by (subst fl_eval [of 36]) (simp_all add: roundEven_def)
  have n: "holeCount (BINDER_SPECS A5_20_hole) - 1 - 3 = 16"
    by (simp add: holeCount_catalog)
  have x3: "getHolePositions (BINDER_SPECS A5_20_hole) 68719476736 ! 3 = 2251799809553203 / 2 ^ 16"
    using a5_20_nth [of 3 68719476736] A3 by simp
  have x16: "getHolePositions (BINDER_SPECS A5_20_hole) 68719476736 ! 16 = 4503599635634585 / 2 ^ 17"
    using a5_20_nth [of 16 68719476736] A16 by simp
  show ?thesis
    unfolding n x3 x16 using h by (simp add: holeCount_catalog)
qed

text \<open>
  C8, amended. Every standard of the catalog has an even hole count, and for every sheet
  height \<open>h\<close> from 100mm to 400mm the offsets are symmetric about \<open>h / 2\<close>: the \<open>i\<close>-th from
  the start and the \<open>i\<close>-th from the end add up to \<open>h\<close> to within 1e-6mm.
\<close>

theorem holePositions_symmetric:
  "even (holeCount (BINDER_SPECS t)) \<and>
   (100 \<le> h \<and> h \<le> 400 \<and> i < holeCount (BINDER_SPECS t) \<longrightarrow>
     \<bar>getHolePositions (BINDER_SPECS t) h ! i
        + getHolePositions (BINDER_SPECS t) h ! (holeCount (BINDER_SPECS t) - 1 - i) - h\<bar>
       \<le> 1 / 10 ^ 6)"
proof (intro conjI impI)
  show "even (holeCount (BINDER_SPECS t))"
    by (cases t) (simp_all add: holeCount_catalog)
next
  assume a: "100 \<le> h \<and> h \<le> 400 \<and> i < holeCount (BINDER_SPECS t)"
  then have h: "100 \<le> h" "h \<le> 400" and i: "i < holeCount (BINDER_SPECS t)"
    by simp_all
  have tol: "(1 / 10 ^ 6 :: real) = 1 / 1000000" by simp
  show "\<bar>getHolePositions (BINDER_SPECS t) h ! i
        + getHolePositions (BINDER_SPECS t) h ! (holeCount (BINDER_SPECS t) - 1 - i) - h\<bar>
       \<le> 1 / 10 ^ 6"
  proof (cases t)
    case A5_20_hole
    with i have "i < 20" by (simp add: holeCount_catalog)
    from a5_20_mirror [OF h this] show ?thesis
      unfolding A5_20_hole holeCount_catalog tol .
  next
    case A5_2_hole
    with i have "i < 2" by (simp add: holeCount_catalog)
    from two_mirror [OF this two_holes(2) [OF h gap2_near]] show ?thesis
      unfolding A5_2_hole holeCount_catalog holes_a5_2_hole tol .
  next
    case A5_6_hole_filofax
    with i have "i < 6" by (simp add: holeCount_catalog)
    from six_mirror [OF this six_holes(2-4) [OF h gap_filofax_near]] show ?thesis
      unfolding A5_6_hole_filofax holeCount_catalog holes_a5_6_hole_filofax tol .
  next
    case A5_6_hole_standard
    with i have "i < 6" by (simp add: holeCount_catalog)
    from six_mirror [OF this six_holes(2-4) [OF h gap_standard_near]] show ?thesis
      unfolding A5_6_hole_standard holeCount_catalog holes_a5_6_hole_standard tol .
  next
    case A4_4_hole
    with i have "i < 4" by (simp add: holeCount_catalog)
    from a4_4_mirror [OF h this] show ?thesis
      unfolding A4_4_hole holeCount_catalog tol .
  qed
qed

theorem holePositions_symmetric_witness:
  "even (holeCount (BINDER_SPECS A5_2_hole)) \<and>
   100 \<le> (297::real) \<and> 297 \<le> (400::real) \<and> (1::nat) < holeCount (BINDER_SPECS A5_2_hole) \<and>
   getHolePositions (BINDER_SPECS A5_2_hole) 297 = [108.5, 188.5] \<and>
   \<bar>getHolePositions (BINDER_SPECS A5_2_hole) 297 ! 1
      + getHolePositions (BINDER_SPECS A5_2_hole) 297 ! (holeCount (BINDER_SPECS A5_2_hole) - 1 - 1)
      - 297\<bar> \<le> 1 / 10 ^ 6"
  using holePositions_symmetric [of A5_2_hole 297 1] a5_2_at_297 by (simp add: holeCount_catalog)

text \<open>
  C10, as the code has it. The claim that the first offset of the 20-hole standard is negative
  for every height below 184.3mm fails in doubles: \<^verbatim>\<open>9.7 * 19\<close> is the double
  184.29999999999998, and at that height, which is below 184.3, the first offset is 0.
\<close>

theorem holePositions_outside_sheet_counterexample:
  "fl (6484479775971737 / 2 ^ 45) = 6484479775971737 / 2 ^ 45 \<and>
   (6484479775971737 / 2 ^ 45 :: real) < 184.3 \<and>
   getHolePositions (BINDER_SPECS A5_20_hole) (6484479775971737 / 2 ^ 45) ! 0 = 0"
proof -
  have d: "fl (6484479775971737 / 2 ^ 45) = 6484479775971737 / 2 ^ 45"
    by (subst fl_eval [of 8]) (simp_all add: roundEven_def)
  have "getHolePositions (BINDER_SPECS A5_20_hole) (6484479775971737 / 2 ^ 45) ! 0 = 0"
    unfolding a5_20_nth [of 0, simplified] span20_value by simp
  with d show ?thesis by simp
qed

text \<open>
  C10, amended. For the 20-hole standard all 20 offsets are returned at every height, each as
  the source computes it, the first one is \<open>(h - 9.7 * 19) / 2 + 0 * 9.7\<close> as the source
  rounds it, and it is negative for every height
  below the double \<^verbatim>\<open>9.7 * 19\<close> = 184.29999999999998, some of them within 100mm to
  400mm. Both outline renderers draw one circle for every offset that \<open>getHolePositions\<close>
  returns to them, in order, at \<open>y + mmToPoints offset\<close>: nothing clamps, filters or rejects
  an offset.
\<close>

theorem holePositions_outside_sheet:
  "length (getHolePositions (BINDER_SPECS A5_20_hole) h) = 20 \<and>
   getHolePositions (BINDER_SPECS A5_20_hole) h
     = map (\<lambda>i. fl (fl (fl (h - fl (fl 9.7 * 19)) / 2) + fl (real i * fl 9.7))) [0..<20] \<and>
   getHolePositions (BINDER_SPECS A5_20_hole) h ! 0
     = fl (fl (fl (h - fl (fl 9.7 * 19)) / 2) + fl (0 * fl 9.7)) \<and>
   fl (fl 9.7 * 19) = 6484479775971737 / 2 ^ 45 \<and>
   (h < 6484479775971737 / 2 ^ 45 \<longrightarrow> getHolePositions (BINDER_SPECS A5_20_hole) h ! 0 < 0) \<and>
   (\<exists>h'. 100 \<le> h' \<and> h' \<le> 400 \<and> getHolePositions (BINDER_SPECS A5_20_hole) h' ! 0 < 0) \<and>
   circles (drawOutline pg t p side is2Up pos) =
     circles pg @
     map (\<lambda>posY. DrawCircle
            (if side = left
             then fst (drawOutline_area t p is2Up pos)
                    + mmToPoints (width (PAPER_SIZES (paperSize (BINDER_SPECS t))))
                    - mmToPoints (edgeDistance (BINDER_SPECS t))
             else fst (drawOutline_area t p is2Up pos) + mmToPoints (edgeDistance (BINDER_SPECS t)))
            (snd (drawOutline_area t p is2Up pos) + mmToPoints posY)
            (mmToPoints (holeDiameter (BINDER_SPECS t)) / 2) LINE_WIDTH)
       (getHolePositions (BINDER_SPECS t) (height (PAPER_SIZES (paperSize (BINDER_SPECS t))))) \<and>
   circles (drawOutlineAt pg t side ax ay aw ah) =
     circles pg @
     map (\<lambda>posY. DrawCircle
            (if side = left then ax + mmToPoints (edgeDistance (BINDER_SPECS t))
             else ax + aw - mmToPoints (edgeDistance (BINDER_SPECS t)))
            (ay + mmToPoints posY)
            (mmToPoints (holeDiameter (BINDER_SPECS t)) / 2) LINE_WIDTH)
       (getHolePositions (BINDER_SPECS t) (height (PAPER_SIZES (paperSize (BINDER_SPECS t)))))"
proof -
  have first: "getHolePositions (BINDER_SPECS A5_20_hole) x ! 0
                 = fl (fl (fl (x - fl (fl 9.7 * 19)) / 2))" for x
    using a5_20_nth [of 0 x] by simp
  have neg: "getHolePositions (BINDER_SPECS A5_20_hole) x ! 0 < 0"
    if "x < 6484479775971737 / 2 ^ 45" for x
  proof -
    from that have "x - fl (fl 9.7 * 19) < 0"
      unfolding span20_value by simp
    then have "fl (x - fl (fl 9.7 * 19)) < 0"
      by (simp only: fl_neg_iff)
    then have "fl (x - fl (fl 9.7 * 19)) / 2 < 0"
      by simp
    then have "fl (fl (x - fl (fl 9.7 * 19)) / 2) < 0"
      by (simp only: fl_neg_iff)
    then have "fl (fl (fl (x - fl (fl 9.7 * 19)) / 2)) < 0"
      by (simp only: fl_neg_iff)
    then show ?thesis
      unfolding first .
  qed
  have "(100::real) < 6484479775971737 / 2 ^ 45" by simp
  then have "getHolePositions (BINDER_SPECS A5_20_hole) 100 ! 0 < 0"
    by (rule neg)
  then have ex: "\<exists>h'. 100 \<le> h' \<and> h' \<le> 400 \<and> getHolePositions (BINDER_SPECS A5_20_hole) h' ! 0 < 0"
    by (intro exI [of _ 100]) simp
  have len: "length (getHolePositions (BINDER_SPECS A5_20_hole) h) = 20"
    by (simp add: holes_length holeCount_catalog)
  show ?thesis
  proof (intro conjI impI)
    show "length (getHolePositions (BINDER_SPECS A5_20_hole) h) = 20"
      by (rule len)
    show "getHolePositions (BINDER_SPECS A5_20_hole) h
            = map (\<lambda>i. fl (fl (fl (h - fl (fl 9.7 * 19)) / 2) + fl (real i * fl 9.7))) [0..<20]"
      by (rule holes_a5_20_hole)
    show "getHolePositions (BINDER_SPECS A5_20_hole) h ! 0
            = fl (fl (fl (h - fl (fl 9.7 * 19)) / 2) + fl (0 * fl 9.7))"
      using a5_20_nth [of 0 h] by simp
    show "fl (fl 9.7 * 19) = 6484479775971737 / 2 ^ 45"
      by (rule span20_value)
    show "getHolePositions (BINDER_SPECS A5_20_hole) h ! 0 < 0"
      if "h < 6484479775971737 / 2 ^ 45"
      using that by (rule neg)
    show "\<exists>h'. 100 \<le> h' \<and> h' \<le> 400 \<and> getHolePositions (BINDER_SPECS A5_20_hole) h' ! 0 < 0"
      by (rule ex)
  qed (simp_all only: circles_drawOutline circles_drawOutlineAt drawHoles_def)
qed

theorem holePositions_outside_sheet_witness:
  "(100::real) < 6484479775971737 / 2 ^ 45 \<and>
   getHolePositions (BINDER_SPECS A5_20_hole) 100 ! 0 < 0"
proof -
  have hyp: "(100::real) < 6484479775971737 / 2 ^ 45"
    by simp
  note neg = holePositions_outside_sheet [where h = 100, THEN conjunct2, THEN conjunct2, THEN conjunct2, THEN conjunct2,
    THEN conjunct1,
    THEN mp, OF hyp]
  from hyp neg show ?thesis by (rule conjI)
qed

section \<open>The registry\<close>

text \<open>
  C5, as the code has it. The claim that the lookup of an id outside the catalog fails with
  an \<open>UnknownStandard\<close> error fails: the property read completes normally with
  \<^verbatim>\<open>undefined\<close>.
\<close>

theorem getBinderSpec_unknown_counterexample:
  "''a4-2-hole'' \<notin> set (map fst BINDER_SPECS_object) \<and>
   getBinderSpec_erased ''a4-2-hole'' = Normal Undefined \<and>
   getBinderSpec_erased ''a4-2-hole'' \<noteq> Throw UnknownStandard"
  by (simp add: getBinderSpec_erased_def BINDER_SPECS_object_def Object_prototype_keys_def)

text \<open>
  C5, amended. The lookup never fails. On the closed type of the five ids it is total and
  returns the catalog entry of that id; its parameter type excludes every other id. With the
  type erased, the read completes normally for every key: it yields a binder entry only for
  one of the five own keys, and then that key's entry; the inherited property for a key of
  \<^verbatim>\<open>Object.prototype\<close>; and \<^verbatim>\<open>undefined\<close> for every other key. There is no
  \<open>UnknownStandard\<close> error, and no default standard is substituted.
\<close>

theorem getBinderSpec_total:
  "spec_id (getBinderSpec t) = t \<and>
   getBinderSpec_erased (binderTypeKey t) = Normal (Value (getBinderSpec t)) \<and>
   (getBinderSpec_erased key = Normal (Value spec) \<longrightarrow> (key, spec) \<in> set BINDER_SPECS_object) \<and>
   (key \<in> set Object_prototype_keys \<longrightarrow> getBinderSpec_erased key = Normal (Inherited key)) \<and>
   (key \<notin> set (map fst BINDER_SPECS_object) \<and> key \<notin> set Object_prototype_keys \<longrightarrow>
      getBinderSpec_erased key = Normal Undefined) \<and>
   getBinderSpec_erased key \<noteq> Throw e"
proof (intro conjI impI)
  show "spec_id (getBinderSpec t) = t"
    by (cases t) (simp_all add: getBinderSpec_def BINDER_SPECS_def spec_defs)
  show "getBinderSpec_erased (binderTypeKey t) = Normal (Value (getBinderSpec t))"
    by (simp add: getBinderSpec_erased_def registry_consistent getBinderSpec_def)
  show "(key, spec) \<in> set BINDER_SPECS_object"
    if "getBinderSpec_erased key = Normal (Value spec)"
  proof -
    from that have "map_of BINDER_SPECS_object key = Some spec"
      by (auto simp: getBinderSpec_erased_def split: option.splits if_splits)
    then show ?thesis by (rule map_of_SomeD)
  qed
  show "getBinderSpec_erased key = Normal (Inherited key)" if "key \<in> set Object_prototype_keys"
    using that by (simp add: getBinderSpec_erased_def prototype_keys_not_own)
  show "getBinderSpec_erased key = Normal Undefined"
    if "key \<notin> set (map fst BINDER_SPECS_object) \<and> key \<notin> set Object_prototype_keys"
  proof -
    from that have "map_of BINDER_SPECS_object key = None"
      by (simp add: map_of_eq_None_iff)
    with that show ?thesis by (simp add: getBinderSpec_erased_def)
  qed
  show "getBinderSpec_erased key \<noteq> Throw e"
    by (simp add: getBinderSpec_erased_def)
qed

theorem getBinderSpec_total_witness:
  "getBinderSpec_erased ''a5-2-hole'' = Normal (Value a5_2_hole) \<and>
   (''a5-2-hole'', a5_2_hole) \<in> set BINDER_SPECS_object \<and>
   ''toString'' \<in> set Object_prototype_keys \<and>
   getBinderSpec_erased ''toString'' = Normal (Inherited ''toString'') \<and>
   ''letter-3-hole'' \<notin> set (map fst BINDER_SPECS_object) \<and>
   ''letter-3-hole'' \<notin> set Object_prototype_keys \<and>
   getBinderSpec_erased ''letter-3-hole'' = Normal Undefined"
proof -
  have own: "getBinderSpec_erased ''a5-2-hole'' = Normal (Value a5_2_hole)"
    by (simp add: getBinderSpec_erased_def BINDER_SPECS_object_def)
  have inh: "''toString'' \<in> set Object_prototype_keys"
    by (simp add: Object_prototype_keys_def)
  have other: "''letter-3-hole'' \<notin> set (map fst BINDER_SPECS_object) \<and>
     ''letter-3-hole'' \<notin> set Object_prototype_keys"
    by (simp add: BINDER_SPECS_object_def Object_prototype_keys_def)
  note a = getBinderSpec_total [where key = "''a5-2-hole''" and spec = a5_2_hole,
    THEN conjunct2, THEN conjunct2, THEN conjunct1, THEN mp, OF own]
  note b = getBinderSpec_total [where key = "''toString''",
    THEN conjunct2, THEN conjunct2, THEN conjunct2, THEN conjunct1, THEN mp, OF inh]
  note c = getBinderSpec_total [where key = "''letter-3-hole''",
    THEN conjunct2, THEN conjunct2, THEN conjunct2, THEN conjunct2, THEN conjunct1, THEN mp,
    OF other]
  from own a inh b other c show ?thesis by blast
qed

section \<open>Scales\<close>

text \<open>
  C9, as the code has it. The claim that the fit scale \<open>s\<close> satisfies
  \<open>contentHeight * s \<le> targetHeight\<close> with equality in one dimension fails in doubles: for
  content 1 by 39 and target 148 by 210 the scale is the double above \<open>210 / 39\<close>, so that
  \<open>39 * s\<close> exceeds 210 (exactly, and as the rounded product 210.00000000000003), and neither
  dimension is met with equality.
\<close>

theorem calculateFitScale_fits_counterexample:
  "calculateFitScale 1 39 148 210 = 3031268979960911 / 2 ^ 49 \<and>
   \<not> 39 * calculateFitScale 1 39 148 210 \<le> 210 \<and>
   1 * calculateFitScale 1 39 148 210 \<noteq> 148 \<and>
   fl (39 * calculateFitScale 1 39 148 210) = 7388718138654721 / 2 ^ 45 \<and>
   \<not> fl (39 * calculateFitScale 1 39 148 210) \<le> 210"
proof -
  have x: "fl (148 / 1) = 148"
    by (subst fl_eval [of 8]) (simp_all add: roundEven_def)
  have y: "fl (210 / 39) = 3031268979960911 / 2 ^ 49"
    by (subst fl_eval [of 3]) (simp_all add: roundEven_def)
  have s: "calculateFitScale 1 39 148 210 = 3031268979960911 / 2 ^ 49"
    unfolding calculateFitScale_def Let_def x y by simp
  have m: "fl (39 * (3031268979960911 / 2 ^ 49)) = 7388718138654721 / 2 ^ 45"
    by (subst fl_eval [of 8]) (simp_all add: roundEven_def)
  show ?thesis
    unfolding s m by simp
qed

text \<open>
  C9, amended. For positive content and target dimensions whose ratios neither overflow nor
  underflow (all four between 1e-100 and 1e100), the fit scale \<open>s\<close> satisfies
  \<open>contentWidth * s \<le> targetWidth\<close> and \<open>contentHeight * s \<le> targetHeight\<close> up to one
  rounding, a factor \<open>1 + 2 ^ -53\<close>, with equality up to the factor \<open>1 - 2 ^ -53\<close> in at
  least one of the two, and \<open>s\<close> is at most the fill scale of the same arguments.
\<close>

theorem calculateFitScale_fits:
  assumes "1 / 10 ^ 100 \<le> cw" and "cw \<le> 10 ^ 100"
    and "1 / 10 ^ 100 \<le> ch" and "ch \<le> 10 ^ 100"
    and "1 / 10 ^ 100 \<le> tw" and "tw \<le> 10 ^ 100"
    and "1 / 10 ^ 100 \<le> th" and "th \<le> 10 ^ 100"
  shows "cw * calculateFitScale cw ch tw th \<le> tw * (1 + 1 / 2 ^ 53) \<and>
         ch * calculateFitScale cw ch tw th \<le> th * (1 + 1 / 2 ^ 53) \<and>
         (tw * (1 - 1 / 2 ^ 53) \<le> cw * calculateFitScale cw ch tw th \<or>
          th * (1 - 1 / 2 ^ 53) \<le> ch * calculateFitScale cw ch tw th) \<and>
         calculateFitScale cw ch tw th \<le> calculateFillScale cw ch tw th"
proof -
  have pos: "0 < cw" "0 < ch" "0 < tw" "0 < th"
    using assms(1,3,5,7) by (auto intro: less_le_trans [rotated])
  let ?sx = "fl (tw / cw)" and ?sy = "fl (th / ch)"
  have fit: "calculateFitScale cw ch tw th = min ?sx ?sy"
    and fill: "calculateFillScale cw ch tw th = max ?sx ?sy"
    by (simp_all add: calculateFitScale_def calculateFillScale_def)
  have scaled: "c * q - c * q / 2 ^ 53 \<le> c * fl q \<and> c * fl q \<le> c * q + c * q / 2 ^ 53"
    if "0 < c" and "0 < q" for c q :: real
  proof -
    have "\<bar>fl q - q\<bar> \<le> q / 2 ^ 53"
      using fl_error [of q] that(2) by simp
    then have "q - q / 2 ^ 53 \<le> fl q" "fl q \<le> q + q / 2 ^ 53"
      by linarith+
    then have "c * (q - q / 2 ^ 53) \<le> c * fl q" "c * fl q \<le> c * (q + q / 2 ^ 53)"
      using that(1) by (simp_all add: mult_left_mono)
    then show ?thesis
      by (simp add: algebra_simps)
  qed
  have x: "cw * (tw / cw) = tw" and y: "ch * (th / ch) = th"
    using pos by simp_all
  have qx: "0 < tw / cw" and qy: "0 < th / ch"
    using pos by simp_all
  note bx = scaled [OF pos(1) qx, unfolded x] and by' = scaled [OF pos(2) qy, unfolded y]
  have mx: "cw * min ?sx ?sy \<le> cw * ?sx" and my: "ch * min ?sx ?sy \<le> ch * ?sy"
    using pos by (simp_all add: mult_left_mono)
  have "cw * min ?sx ?sy \<le> tw * (1 + 1 / 2 ^ 53)"
    using mx bx by (simp add: algebra_simps)
  moreover have "ch * min ?sx ?sy \<le> th * (1 + 1 / 2 ^ 53)"
    using my by' by (simp add: algebra_simps)
  moreover have "tw * (1 - 1 / 2 ^ 53) \<le> cw * min ?sx ?sy \<or> th * (1 - 1 / 2 ^ 53) \<le> ch * min ?sx ?sy"
  proof (cases "?sx \<le> ?sy")
    case True
    then have "min ?sx ?sy = ?sx" by simp
    then show ?thesis using bx by (simp add: algebra_simps)
  next
    case False
    then have "min ?sx ?sy = ?sy" by simp
    then show ?thesis using by' by (simp add: algebra_simps)
  qed
  moreover have "min ?sx ?sy \<le> max ?sx ?sy"
    by simp
  ultimately show ?thesis
    unfolding fit fill by blast
qed

theorem calculateFitScale_fits_witness:
  "1 / 10 ^ 100 \<le> (100::real) \<and> (100::real) \<le> 10 ^ 100 \<and>
   1 / 10 ^ 100 \<le> (148::real) \<and> (148::real) \<le> 10 ^ 100 \<and>
   1 / 10 ^ 100 \<le> (210::real) \<and> (210::real) \<le> 10 ^ 100 \<and>
   calculateFitScale 100 100 148 210 = 3332663724254167 / 2 ^ 51 \<and>
   100 * calculateFitScale 100 100 148 210 \<le> 148 * (1 + 1 / 2 ^ 53) \<and>
   100 * calculateFitScale 100 100 148 210 \<le> 210 * (1 + 1 / 2 ^ 53) \<and>
   calculateFitScale 100 100 148 210 \<le> calculateFillScale 100 100 148 210"
proof -
  have r: "1 / 10 ^ 100 \<le> (100::real)" "(100::real) \<le> 10 ^ 100"
    "1 / 10 ^ 100 \<le> (148::real)" "(148::real) \<le> 10 ^ 100"
    "1 / 10 ^ 100 \<le> (210::real)" "(210::real) \<le> 10 ^ 100"
    by simp_all
  have x: "fl (148 / 100) = 3332663724254167 / 2 ^ 51"
    by (subst fl_eval [of 1]) (simp_all add: roundEven_def)
  have y: "fl (210 / 100) = 4728779608739021 / 2 ^ 51"
    by (subst fl_eval [of 2]) (simp_all add: roundEven_def)
  have v: "calculateFitScale 100 100 148 210 = 3332663724254167 / 2 ^ 51"
    unfolding calculateFitScale_def Let_def x y by simp
  note c = calculateFitScale_fits [OF r(1,2) r(1,2) r(3,4) r(5,6)]
  from r v c show ?thesis by blast
qed

section \<open>The outline renderer\<close>

text \<open>
  C1. The two outline paths at one standard (2-hole) and one side (left). In 2-up mode the
  outline sheet of two pages, drawn by \<open>drawOutlineAt\<close>, has its trim rectangles at
  \<open>x = sheet width - A5 width\<close> and every hole at \<open>x + edgeDistance\<close>, not at
  \<open>x + width - edgeDistance\<close> as the claim has it; in single mode the outline sheet, drawn
  by \<open>drawOutline\<close>, has its trim rectangle at \<open>x = 0\<close> and every hole at
  \<open>x + width - edgeDistance\<close>. Both draw \<open>holeCount\<close> circles per trim rectangle, at
  \<open>y + mmToPoints\<close> of the hole centres 65 and 145.
\<close>

theorem outline_paths_disagree:
  "getHolePositions (BINDER_SPECS A5_2_hole) 210 = [65, 145] \<and>
   circles (generatePdf [samplePage, samplePage] A5_2_hole A4 left False ! 1) =
     [DrawCircle (mmToPoints 210 - mmToPoints 148 + mmToPoints 12) (0 + mmToPoints 65)
        (mmToPoints 6 / 2) LINE_WIDTH,
      DrawCircle (mmToPoints 210 - mmToPoints 148 + mmToPoints 12) (0 + mmToPoints 145)
        (mmToPoints 6 / 2) LINE_WIDTH,
      DrawCircle (mmToPoints 210 - mmToPoints 148 + mmToPoints 12)
        (mmToPoints 297 - mmToPoints 210 + mmToPoints 65) (mmToPoints 6 / 2) LINE_WIDTH,
      DrawCircle (mmToPoints 210 - mmToPoints 148 + mmToPoints 12)
        (mmToPoints 297 - mmToPoints 210 + mmToPoints 145) (mmToPoints 6 / 2) LINE_WIDTH] \<and>
   rectangles (generatePdf [samplePage, samplePage] A5_2_hole A4 left False ! 1) =
     [DrawRectangle (mmToPoints 210 - mmToPoints 148) 0 (mmToPoints 148) (mmToPoints 210)
        LINE_WIDTH,
      DrawRectangle (mmToPoints 210 - mmToPoints 148) (mmToPoints 297 - mmToPoints 210)
        (mmToPoints 148) (mmToPoints 210) LINE_WIDTH] \<and>
   mmToPoints 210 - mmToPoints 148 + mmToPoints 12
     \<noteq> mmToPoints 210 - mmToPoints 148 + mmToPoints 148 - mmToPoints 12 \<and>
   circles (generatePdf [samplePage] A5_2_hole A5 left False ! 1) =
     [DrawCircle (0 + mmToPoints 148 - mmToPoints 12) (0 + mmToPoints 65)
        (mmToPoints 6 / 2) LINE_WIDTH,
      DrawCircle (0 + mmToPoints 148 - mmToPoints 12) (0 + mmToPoints 145)
        (mmToPoints 6 / 2) LINE_WIDTH] \<and>
   rectangles (generatePdf [samplePage] A5_2_hole A5 left False ! 1) =
     [DrawRectangle 0 0 (mmToPoints 148) (mmToPoints 210) LINE_WIDTH]"
proof -
  let ?two = "[samplePage, samplePage]"
  have spec: "paperSize (BINDER_SPECS A5_2_hole) = A5" "edgeDistance (BINDER_SPECS A5_2_hole) = 12"
    "holeDiameter (BINDER_SPECS A5_2_hole) = 6"
    by (simp_all add: BINDER_SPECS_def a5_2_hole_def HOLE_DIAMETER_def)
  have native: "height (PAPER_SIZES A5) = 210" "width (PAPER_SIZES A5) = 148"
    by (simp_all add: PAPER_SIZES_def)
  have u: "use2Up ?two A5_2_hole A4"
    by (simp add: use2Up_def spec)
  have k: "2 * 0 < length ?two"
    by simp
  have sheet: "generatePdf ?two A5_2_hole A4 left False ! 1 =
      drawOutlineAt
        (drawOutlineAt (newPage (mmToPoints 210) (mmToPoints 297)) A5_2_hole left
           (mmToPoints 210 - mmToPoints 148) 0 (mmToPoints 148) (mmToPoints 210))
        A5_2_hole left (mmToPoints 210 - mmToPoints 148) (mmToPoints 297 - mmToPoints 210)
        (mmToPoints 148) (mmToPoints 210)"
    using twoUp_sheets(2) [OF u k, of left False] by simp
  have c2: "circles (generatePdf ?two A5_2_hole A4 left False ! 1) =
     [DrawCircle (mmToPoints 210 - mmToPoints 148 + mmToPoints 12) (0 + mmToPoints 65)
        (mmToPoints 6 / 2) LINE_WIDTH,
      DrawCircle (mmToPoints 210 - mmToPoints 148 + mmToPoints 12) (0 + mmToPoints 145)
        (mmToPoints 6 / 2) LINE_WIDTH,
      DrawCircle (mmToPoints 210 - mmToPoints 148 + mmToPoints 12)
        (mmToPoints 297 - mmToPoints 210 + mmToPoints 65) (mmToPoints 6 / 2) LINE_WIDTH,
      DrawCircle (mmToPoints 210 - mmToPoints 148 + mmToPoints 12)
        (mmToPoints 297 - mmToPoints 210 + mmToPoints 145) (mmToPoints 6 / 2) LINE_WIDTH]"
    unfolding sheet circles_drawOutlineAt spec native a5_2_at_210
    by (simp add: circles_def ops_newPage drawHoles_def)
  have r2: "rectangles (generatePdf ?two A5_2_hole A4 left False ! 1) =
     [DrawRectangle (mmToPoints 210 - mmToPoints 148) 0 (mmToPoints 148) (mmToPoints 210)
        LINE_WIDTH,
      DrawRectangle (mmToPoints 210 - mmToPoints 148) (mmToPoints 297 - mmToPoints 210)
        (mmToPoints 148) (mmToPoints 210) LINE_WIDTH]"
    unfolding sheet by (simp add: rectangles_drawOutlineAt rectangles_newPage)
  have x: "mmToPoints 210 - mmToPoints 148 + mmToPoints 12
     \<noteq> mmToPoints 210 - mmToPoints 148 + mmToPoints 148 - mmToPoints 12"
    by (simp add: mmToPoints_def)
  have v: "\<not> use2Up [samplePage] A5_2_hole A5"
    by (simp add: use2Up_def)
  have single: "generatePdf [samplePage] A5_2_hole A5 left False ! 1 =
      drawOutline (newPage (mmToPoints 148) (mmToPoints 210)) A5_2_hole A5 left False Single"
    unfolding generatePdf_single [OF v] by (simp add: native)
  have area: "drawOutline_area A5_2_hole A5 False Single = (0, 0)"
    by (simp add: drawOutline_area_def Let_def spec)
  have c1: "circles (generatePdf [samplePage] A5_2_hole A5 left False ! 1) =
     [DrawCircle (0 + mmToPoints 148 - mmToPoints 12) (0 + mmToPoints 65)
        (mmToPoints 6 / 2) LINE_WIDTH,
      DrawCircle (0 + mmToPoints 148 - mmToPoints 12) (0 + mmToPoints 145)
        (mmToPoints 6 / 2) LINE_WIDTH]"
    unfolding single circles_drawOutline area spec native a5_2_at_210
    by (simp add: circles_def ops_newPage drawHoles_def)
  have r1: "rectangles (generatePdf [samplePage] A5_2_hole A5 left False ! 1) =
     [DrawRectangle 0 0 (mmToPoints 148) (mmToPoints 210) LINE_WIDTH]"
    unfolding single
    by (simp add: rectangles_def drawOutline_def Let_def area spec native ops_draw ops_newPage
          rectangles_cropMarks rectangles_drawHoles)
  from a5_2_at_210 c2 r2 x c1 r1 show ?thesis
    by (intro conjI)
qed

section \<open>The layout planner\<close>

text \<open>
  C7. \<open>generatePdf\<close> packs 2-up exactly when the target size is A4, the standard's native
  size is A5 and there are at least two content pages. Then, for \<open>n\<close> pages, the document is
  \<open>ceil (n / 2)\<close> pairs of a content sheet and an outline sheet: pair \<open>k\<close> has page \<open>2k\<close> in
  the top sub-area and, when there is one, page \<open>2k + 1\<close> in the bottom sub-area, followed
  by a sheet of outlines only; the content sheet of the last pair holds a single image, its
  bottom slot empty, exactly when \<open>n\<close> is odd. Otherwise the layout is single: every page
  gets a content sheet of its own, drawn on the whole resolved area, followed by its outline
  sheet.
\<close>

theorem twoUp_pairing:
  "(use2Up pages t p \<longleftrightarrow> p = A4 \<and> paperSize (BINDER_SPECS t) = A5 \<and> 2 \<le> length pages) \<and>
   (p = A4 \<and> paperSize (BINDER_SPECS t) = A5 \<and> 2 \<le> length pages \<longrightarrow>
      length (generatePdf pages t p s pad) = 2 * nat \<lceil>real (length pages) / 2\<rceil> \<and>
      (\<forall>k < nat \<lceil>real (length pages) / 2\<rceil>.
         generatePdf pages t p s pad ! (2 * k) =
           (if 2 * k + 1 < length pages
            then drawContentPageAt
                   (drawContentPageAt (newPage (mmToPoints 210) (mmToPoints 297)) (pages ! (2 * k))
                      t s pad 0 (mmToPoints 297 - mmToPoints 210) (mmToPoints 148) (mmToPoints 210))
                   (pages ! (2 * k + 1)) t s pad 0 0 (mmToPoints 148) (mmToPoints 210)
            else drawContentPageAt (newPage (mmToPoints 210) (mmToPoints 297)) (pages ! (2 * k))
                   t s pad 0 (mmToPoints 297 - mmToPoints 210) (mmToPoints 148) (mmToPoints 210)) \<and>
         images (generatePdf pages t p s pad ! (2 * k + 1)) = [] \<and>
         length (rectangles (generatePdf pages t p s pad ! (2 * k + 1))) =
           (if 2 * k + 1 < length pages then 2 else 1)) \<and>
      (length (images (generatePdf pages t p s pad ! (2 * (nat \<lceil>real (length pages) / 2\<rceil> - 1)))) = 1
         \<longleftrightarrow> odd (length pages))) \<and>
   (\<not> (p = A4 \<and> paperSize (BINDER_SPECS t) = A5 \<and> 2 \<le> length pages) \<longrightarrow>
      generatePdf pages t p s pad =
        concat (map (\<lambda>contentPage.
           [drawContentPage
              (newPage (mmToPoints (width (PAPER_SIZES p))) (mmToPoints (height (PAPER_SIZES p))))
              contentPage t p s pad,
            drawOutline
              (newPage (mmToPoints (width (PAPER_SIZES p))) (mmToPoints (height (PAPER_SIZES p))))
              t p s False Single]) pages) \<and>
      length (generatePdf pages t p s pad) = 2 * length pages \<and>
      (\<forall>k < length pages.
         generatePdf pages t p s pad ! (2 * k) =
           drawContentPage
             (newPage (mmToPoints (width (PAPER_SIZES p))) (mmToPoints (height (PAPER_SIZES p))))
             (pages ! k) t p s pad \<and>
         generatePdf pages t p s pad ! (2 * k + 1) =
           drawOutline
             (newPage (mmToPoints (width (PAPER_SIZES p))) (mmToPoints (height (PAPER_SIZES p))))
             t p s False Single))"
proof (intro conjI impI allI)
  show "use2Up pages t p \<longleftrightarrow> p = A4 \<and> paperSize (BINDER_SPECS t) = A5 \<and> 2 \<le> length pages"
    by (rule use2Up_iff)
next
  assume "p = A4 \<and> paperSize (BINDER_SPECS t) = A5 \<and> 2 \<le> length pages"
  then have u: "use2Up pages t p" by (simp only: use2Up_iff)
  then show "length (generatePdf pages t p s pad) = 2 * nat \<lceil>real (length pages) / 2\<rceil>"
    by (rule twoUp_length)
next
  fix k
  assume "p = A4 \<and> paperSize (BINDER_SPECS t) = A5 \<and> 2 \<le> length pages"
    and "k < nat \<lceil>real (length pages) / 2\<rceil>"
  then have u: "use2Up pages t p" and k: "2 * k < length pages"
    unfolding ceil_half use2Up_iff by presburger+
  show "generatePdf pages t p s pad ! (2 * k) =
           (if 2 * k + 1 < length pages
            then drawContentPageAt
                   (drawContentPageAt (newPage (mmToPoints 210) (mmToPoints 297)) (pages ! (2 * k))
                      t s pad 0 (mmToPoints 297 - mmToPoints 210) (mmToPoints 148) (mmToPoints 210))
                   (pages ! (2 * k + 1)) t s pad 0 0 (mmToPoints 148) (mmToPoints 210)
            else drawContentPageAt (newPage (mmToPoints 210) (mmToPoints 297)) (pages ! (2 * k))
                   t s pad 0 (mmToPoints 297 - mmToPoints 210) (mmToPoints 148) (mmToPoints 210))"
    by (rule twoUp_sheets(1) [OF u k])
  show "images (generatePdf pages t p s pad ! (2 * k + 1)) = []"
    unfolding twoUp_sheets(2) [OF u k]
    by (simp add: images_drawOutlineAt images_newPage)
  show "length (rectangles (generatePdf pages t p s pad ! (2 * k + 1))) =
           (if 2 * k + 1 < length pages then 2 else 1)"
    unfolding twoUp_sheets(2) [OF u k]
    by (simp add: rectangles_drawOutlineAt rectangles_newPage)
next
  assume "p = A4 \<and> paperSize (BINDER_SPECS t) = A5 \<and> 2 \<le> length pages"
  then have u: "use2Up pages t p" by (simp only: use2Up_iff)
  then have n: "0 < length pages" by (auto simp: use2Up_def)
  show "length (images (generatePdf pages t p s pad ! (2 * (nat \<lceil>real (length pages) / 2\<rceil> - 1)))) = 1
         \<longleftrightarrow> odd (length pages)"
    unfolding twoUp_sheets(1) [OF u last_pair(1) [OF n]]
    using last_pair(2) [OF n]
    by (simp add: images_drawContentPageAt images_newPage)
next
  assume "\<not> (p = A4 \<and> paperSize (BINDER_SPECS t) = A5 \<and> 2 \<le> length pages)"
  then have u: "\<not> use2Up pages t p" by (simp add: use2Up_iff)
  show "generatePdf pages t p s pad =
        concat (map (\<lambda>contentPage.
           [drawContentPage
              (newPage (mmToPoints (width (PAPER_SIZES p))) (mmToPoints (height (PAPER_SIZES p))))
              contentPage t p s pad,
            drawOutline
              (newPage (mmToPoints (width (PAPER_SIZES p))) (mmToPoints (height (PAPER_SIZES p))))
              t p s False Single]) pages)"
    by (rule generatePdf_single [OF u])
  show "length (generatePdf pages t p s pad) = 2 * length pages"
    unfolding generatePdf_single [OF u] by (rule length_concat_pairs)
next
  fix k
  assume "\<not> (p = A4 \<and> paperSize (BINDER_SPECS t) = A5 \<and> 2 \<le> length pages)"
    and k: "k < length pages"
  then have u: "\<not> use2Up pages t p" by (simp add: use2Up_iff)
  show "generatePdf pages t p s pad ! (2 * k) =
           drawContentPage
             (newPage (mmToPoints (width (PAPER_SIZES p))) (mmToPoints (height (PAPER_SIZES p))))
             (pages ! k) t p s pad"
    unfolding generatePdf_single [OF u] using k by (rule nth_concat_pairs_even)
  show "generatePdf pages t p s pad ! (2 * k + 1) =
           drawOutline
             (newPage (mmToPoints (width (PAPER_SIZES p))) (mmToPoints (height (PAPER_SIZES p))))
             t p s False Single"
    unfolding generatePdf_single [OF u] using nth_concat_pairs_odd [OF k] by simp
qed

theorem twoUp_pairing_witness:
  "A4 = A4 \<and> paperSize (BINDER_SPECS A5_2_hole) = A5 \<and>
   2 \<le> length [samplePage, samplePage, samplePage] \<and>
   length (generatePdf [samplePage, samplePage, samplePage] A5_2_hole A4 left False) = 4 \<and>
   (1::nat) < nat \<lceil>real (length [samplePage, samplePage, samplePage]) / 2\<rceil> \<and>
   generatePdf [samplePage, samplePage, samplePage] A5_2_hole A4 left False ! (2 * 1) =
     drawContentPageAt (newPage (mmToPoints 210) (mmToPoints 297)) samplePage A5_2_hole left False
       0 (mmToPoints 297 - mmToPoints 210) (mmToPoints 148) (mmToPoints 210) \<and>
   length (images (generatePdf [samplePage, samplePage, samplePage] A5_2_hole A4 left False ! 2)) = 1 \<and>
   \<not> (A4 = A4 \<and> paperSize (BINDER_SPECS A5_2_hole) = A5 \<and> 2 \<le> length [samplePage]) \<and>
   (0::nat) < length [samplePage] \<and>
   generatePdf [samplePage] A5_2_hole A4 left False =
     [drawContentPage (newPage (mmToPoints 210) (mmToPoints 297)) samplePage A5_2_hole A4 left False,
      drawOutline (newPage (mmToPoints 210) (mmToPoints 297)) A5_2_hole A4 left False Single] \<and>
   generatePdf [samplePage] A5_2_hole A4 left False ! (2 * 0) =
     drawContentPage (newPage (mmToPoints 210) (mmToPoints 297)) samplePage A5_2_hole A4 left False"
proof -
  let ?pages = "[samplePage, samplePage, samplePage]"
  have u: "A4 = A4 \<and> paperSize (BINDER_SPECS A5_2_hole) = A5 \<and> 2 \<le> length ?pages"
    by (simp add: BINDER_SPECS_def a5_2_hole_def)
  have c: "nat \<lceil>real (length ?pages) / 2\<rceil> = 2"
    by (simp add: ceil_half)
  note two = mp [OF conjunct1 [OF conjunct2 [OF twoUp_pairing [of ?pages A5_2_hole A4 left False]]] u]
  note len = conjunct1 [OF two]
  note sheet = conjunct1 [OF conjunct2 [OF two], rule_format, of 1]
  note lastp = conjunct2 [OF conjunct2 [OF two]]
  have v: "\<not> (A4 = A4 \<and> paperSize (BINDER_SPECS A5_2_hole) = A5 \<and> 2 \<le> length [samplePage])"
    by simp
  note one = mp [OF conjunct2 [OF conjunct2 [OF twoUp_pairing [of "[samplePage]" A5_2_hole A4 left False]]] v]
  note doc = conjunct1 [OF one]
  note first = conjunct2 [OF conjunct2 [OF one], rule_format, of 0]
  have a: "length (generatePdf ?pages A5_2_hole A4 left False) = 4"
    using len c by simp
  have b: "generatePdf ?pages A5_2_hole A4 left False ! (2 * 1) =
     drawContentPageAt (newPage (mmToPoints 210) (mmToPoints 297)) samplePage A5_2_hole left False
       0 (mmToPoints 297 - mmToPoints 210) (mmToPoints 148) (mmToPoints 210)"
    using sheet c by simp
  have d: "length (images (generatePdf ?pages A5_2_hole A4 left False ! 2)) = 1"
    using lastp c by simp
  have e: "generatePdf [samplePage] A5_2_hole A4 left False =
     [drawContentPage (newPage (mmToPoints 210) (mmToPoints 297)) samplePage A5_2_hole A4 left False,
      drawOutline (newPage (mmToPoints 210) (mmToPoints 297)) A5_2_hole A4 left False Single]"
    using doc by (simp add: PAPER_SIZES_def)
  have f: "generatePdf [samplePage] A5_2_hole A4 left False ! (2 * 0) =
     drawContentPage (newPage (mmToPoints 210) (mmToPoints 297)) samplePage A5_2_hole A4 left False"
    using first by (simp add: PAPER_SIZES_def)
  from u a c b d v e f show ?thesis
    by simp
qed

text \<open>
  C2, as the code has it. The claim that an outline keeps the vertical position of its content
  fails: of three pages the last one is alone on its sheet, its content in the top sub-area
  (at \<open>y = sheet height - sub-area height\<close>), and the only outline of the paired sheet is in
  the bottom sub-area (at \<open>y = 0\<close>).
\<close>

theorem twoUp_outline_vertical_counterexample:
  "generatePdf [samplePage, samplePage, samplePage] A5_2_hole A4 left False ! 2 =
     drawContentPageAt (newPage (mmToPoints 210) (mmToPoints 297)) samplePage A5_2_hole left False
       0 (mmToPoints 297 - mmToPoints 210) (mmToPoints 148) (mmToPoints 210) \<and>
   rectangles (generatePdf [samplePage, samplePage, samplePage] A5_2_hole A4 left False ! 3) =
     [DrawRectangle (mmToPoints 210 - mmToPoints 148) 0 (mmToPoints 148) (mmToPoints 210)
        LINE_WIDTH] \<and>
   (0::real) \<noteq> mmToPoints 297 - mmToPoints 210"
proof -
  let ?pages = "[samplePage, samplePage, samplePage]"
  have u: "use2Up ?pages A5_2_hole A4"
    by (simp add: use2Up_def BINDER_SPECS_def a5_2_hole_def)
  have k: "2 * 1 < length ?pages"
    by simp
  have "generatePdf ?pages A5_2_hole A4 left False ! 2 =
     drawContentPageAt (newPage (mmToPoints 210) (mmToPoints 297)) samplePage A5_2_hole left False
       0 (mmToPoints 297 - mmToPoints 210) (mmToPoints 148) (mmToPoints 210)"
    using twoUp_sheets(1) [OF u k, of left False] by simp
  moreover have "rectangles (generatePdf ?pages A5_2_hole A4 left False ! 3) =
     [DrawRectangle (mmToPoints 210 - mmToPoints 148) 0 (mmToPoints 148) (mmToPoints 210)
        LINE_WIDTH]"
    using twoUp_sheets(2) [OF u k, of left False]
    by (simp add: rectangles_drawOutlineAt rectangles_newPage)
  moreover have "(0::real) \<noteq> mmToPoints 297 - mmToPoints 210"
    using gaps_positive(1) by simp
  ultimately show ?thesis by simp
qed

text \<open>
  C2, amended. In 2-up mode the content sub-areas are at \<open>x = 0\<close> and the outlines of the
  paired sheet at the mirrored \<open>x = sheet width - sub-area width\<close>; the vertical positions
  are swapped: the outline of the page whose content is in the top sub-area is drawn in the
  bottom sub-area (at \<open>y = 0\<close>), and the outline of the page in the bottom sub-area, when
  there is one, in the top sub-area (at \<open>y = sheet height - sub-area height\<close>).
\<close>

theorem twoUp_outline_positions:
  "(use2Up pages t p \<longrightarrow>
     (\<forall>k. 2 * k < length pages \<longrightarrow>
        generatePdf pages t p s pad ! (2 * k) =
          (if 2 * k + 1 < length pages
           then drawContentPageAt
                  (drawContentPageAt (newPage (mmToPoints 210) (mmToPoints 297)) (pages ! (2 * k))
                     t s pad 0 (mmToPoints 297 - mmToPoints 210) (mmToPoints 148) (mmToPoints 210))
                  (pages ! (2 * k + 1)) t s pad 0 0 (mmToPoints 148) (mmToPoints 210)
           else drawContentPageAt (newPage (mmToPoints 210) (mmToPoints 297)) (pages ! (2 * k))
                  t s pad 0 (mmToPoints 297 - mmToPoints 210) (mmToPoints 148) (mmToPoints 210)) \<and>
        generatePdf pages t p s pad ! (2 * k + 1) =
          (if 2 * k + 1 < length pages
           then drawOutlineAt
                  (drawOutlineAt (newPage (mmToPoints 210) (mmToPoints 297)) t s
                     (mmToPoints 210 - mmToPoints 148) 0 (mmToPoints 148) (mmToPoints 210))
                  t s (mmToPoints 210 - mmToPoints 148) (mmToPoints 297 - mmToPoints 210)
                  (mmToPoints 148) (mmToPoints 210)
           else drawOutlineAt (newPage (mmToPoints 210) (mmToPoints 297)) t s
                  (mmToPoints 210 - mmToPoints 148) 0 (mmToPoints 148) (mmToPoints 210)) \<and>
        rectangles (generatePdf pages t p s pad ! (2 * k + 1)) =
          DrawRectangle (mmToPoints 210 - mmToPoints 148) 0 (mmToPoints 148) (mmToPoints 210)
            LINE_WIDTH
          # (if 2 * k + 1 < length pages
             then [DrawRectangle (mmToPoints 210 - mmToPoints 148) (mmToPoints 297 - mmToPoints 210)
                     (mmToPoints 148) (mmToPoints 210) LINE_WIDTH]
             else []))) \<and>
   0 < mmToPoints 297 - mmToPoints 210 \<and> 0 < mmToPoints 210 - mmToPoints 148"
proof (intro conjI impI allI)
  fix k
  assume u: "use2Up pages t p" and k: "2 * k < length pages"
  show "generatePdf pages t p s pad ! (2 * k) =
          (if 2 * k + 1 < length pages
           then drawContentPageAt
                  (drawContentPageAt (newPage (mmToPoints 210) (mmToPoints 297)) (pages ! (2 * k))
                     t s pad 0 (mmToPoints 297 - mmToPoints 210) (mmToPoints 148) (mmToPoints 210))
                  (pages ! (2 * k + 1)) t s pad 0 0 (mmToPoints 148) (mmToPoints 210)
           else drawContentPageAt (newPage (mmToPoints 210) (mmToPoints 297)) (pages ! (2 * k))
                  t s pad 0 (mmToPoints 297 - mmToPoints 210) (mmToPoints 148) (mmToPoints 210))"
    by (rule twoUp_sheets(1) [OF u k])
  show "generatePdf pages t p s pad ! (2 * k + 1) =
          (if 2 * k + 1 < length pages
           then drawOutlineAt
                  (drawOutlineAt (newPage (mmToPoints 210) (mmToPoints 297)) t s
                     (mmToPoints 210 - mmToPoints 148) 0 (mmToPoints 148) (mmToPoints 210))
                  t s (mmToPoints 210 - mmToPoints 148) (mmToPoints 297 - mmToPoints 210)
                  (mmToPoints 148) (mmToPoints 210)
           else drawOutlineAt (newPage (mmToPoints 210) (mmToPoints 297)) t s
                  (mmToPoints 210 - mmToPoints 148) 0 (mmToPoints 148) (mmToPoints 210))"
    by (rule twoUp_sheets(2) [OF u k])
  show "rectangles (generatePdf pages t p s pad ! (2 * k + 1)) =
          DrawRectangle (mmToPoints 210 - mmToPoints 148) 0 (mmToPoints 148) (mmToPoints 210)
            LINE_WIDTH
          # (if 2 * k + 1 < length pages
             then [DrawRectangle (mmToPoints 210 - mmToPoints 148) (mmToPoints 297 - mmToPoints 210)
                     (mmToPoints 148) (mmToPoints 210) LINE_WIDTH]
             else [])"
    unfolding twoUp_sheets(2) [OF u k]
    by (simp add: rectangles_drawOutlineAt rectangles_newPage)
qed (rule gaps_positive)+

theorem twoUp_outline_positions_witness:
  "use2Up [samplePage, samplePage] A5_20_hole A4 \<and>
   2 * 0 < length [samplePage, samplePage] \<and>
   rectangles (generatePdf [samplePage, samplePage] A5_20_hole A4 right True ! 1) =
     [DrawRectangle (mmToPoints 210 - mmToPoints 148) 0 (mmToPoints 148) (mmToPoints 210)
        LINE_WIDTH,
      DrawRectangle (mmToPoints 210 - mmToPoints 148) (mmToPoints 297 - mmToPoints 210)
        (mmToPoints 148) (mmToPoints 210) LINE_WIDTH]"
proof -
  let ?pages = "[samplePage, samplePage]"
  have u: "use2Up ?pages A5_20_hole A4"
    by (simp add: use2Up_def BINDER_SPECS_def a5_20_hole_def)
  note sheet = conjunct1 [OF twoUp_outline_positions [of ?pages A5_20_hole A4 right True], rule_format, OF u, of 0]
  note rect = conjunct2 [OF conjunct2 [OF sheet]]
  from u rect show ?thesis
    by simp
qed

end
